theory Spec2Isabelle
  imports Complex_Main "HOL-Library.AList"
begin

section \<open>The job entity\<close>

text \<open>
  The entity of \<^verbatim>\<open>entities/job.entity\<close>. The columns that only travel to the HTTP
  request (\<^verbatim>\<open>target_url\<close>, \<^verbatim>\<open>target_method\<close>, \<^verbatim>\<open>headers\<close>, \<^verbatim>\<open>params\<close>,
  \<^verbatim>\<open>payload\<close>, \<^verbatim>\<open>body\<close>) and the two store-maintained dates are never read by the
  runner's control flow; the request itself is represented by its outcome below.
  The free-form \<^verbatim>\<open>scheduling\<close> and \<^verbatim>\<open>retries\<close> columns are nullable JSON objects
  whose members may each be absent. \<^verbatim>\<open>execute_at\<close> holds the epoch milliseconds that
  \<^verbatim>\<open>new Date(execute_at).getTime()\<close> yields for a well-formed date string; an absent
  or empty string is \<open>None\<close>.
\<close>

datatype JobType = Oneoff | Recurring

datatype JobStatus = Scheduled | Running | Failed | Completed | Paused

record Scheduling =
  execute_at :: "int option"
  cron :: "string option"
  timezone :: "string option"

record Retries =
  enabled :: "bool option"
  max_attempts :: "int option"
  retryable_statuses :: "int list option"

record JobEntity =
  job_id :: string
  job_type :: JobType
  scheduling :: "Scheduling option"
  retries :: "Retries option"
  status :: JobStatus
  attempt_count :: nat
  last_error :: "string option"

section \<open>The host: timeouts and cron tasks\<close>

text \<open>
  A closure handed to \<^verbatim>\<open>setTimeout\<close> is one of three: the re-check of
  \<^verbatim>\<open>scheduleOneOff\<close> for a delay that is too long (it captures the job object), the
  one-off fire, and the retry fire of \<^verbatim>\<open>execute\<close>. The host keeps every timeout it
  ever created; the handle returned by \<^verbatim>\<open>setTimeout\<close> is the position in that list, so
  a new handle is always fresh. A timeout is live while it is \<open>Pending\<close>.
\<close>

datatype Callback = Recheck JobEntity | RunOneOff string | RunRetry string nat

datatype TimerState = Pending | Fired | Cleared

record Timeout =
  delay :: int
  callback :: Callback
  tstate :: TimerState

record CronTask =
  expression :: string
  options :: "string option"
  target :: string
  stopped :: bool

section \<open>The runner's state\<close>

text \<open>
  \<^verbatim>\<open>timers\<close> and \<^verbatim>\<open>cronJobs\<close> are the two \<^verbatim>\<open>Map\<close>s of \<^verbatim>\<open>JobRunnerService\<close>, kept
  as association lists in insertion order. Every closure given to \<^verbatim>\<open>enqueue\<close> is
  \<^verbatim>\<open>() => this.execute(job.id)\<close>, so a queued task is the job id it will execute.
  \<open>started\<close> logs, in order, the closures handed to \<^verbatim>\<open>Promise.resolve().then\<close>.
  \<open>repo\<close> is the table behind the repository.
\<close>

record Runner =
  timers :: "(string \<times> nat) list"
  cronJobs :: "(string \<times> nat) list"
  running :: nat
  queue :: "string list"
  started :: "string list"
  repo :: "JobEntity list"
  timeouts :: "Timeout list"
  cronTasks :: "CronTask list"

definition concurrency :: nat where
  "concurrency = 5"

definition MAX_TIMEOUT :: int where
  "MAX_TIMEOUT = 2147483647"

definition initial :: Runner where
  "initial = \<lparr>timers = [], cronJobs = [], running = 0, queue = [], started = [],
              repo = [], timeouts = [], cronTasks = []\<rparr>"

subsection \<open>Strings\<close>

fun digits :: "nat \<Rightarrow> string" where
  "digits n = (if n < 10 then [''0123456789'' ! n]
               else digits (n div 10) @ [''0123456789'' ! (n mod 10)])"

declare digits.simps [simp del]

definition numberToString :: "int \<Rightarrow> string" where
  "numberToString i = (if i < 0 then CHR ''-'' # digits (nat (- i)) else digits (nat i))"

fun startsWith :: "string \<Rightarrow> string \<Rightarrow> bool" where
  "startsWith s [] = True"
| "startsWith [] (p # ps) = False"
| "startsWith (c # cs) (p # ps) = (c = p \<and> startsWith cs ps)"

definition retryPrefix :: "string \<Rightarrow> string" where
  "retryPrefix ident = ident @ '':retry:''"

definition retryKey :: "string \<Rightarrow> nat \<Rightarrow> string" where
  "retryKey ident attempt = retryPrefix ident @ digits attempt"

subsection \<open>Host primitives\<close>

definition setTimeout :: "Callback \<Rightarrow> int \<Rightarrow> Runner \<Rightarrow> nat \<times> Runner" where
  "setTimeout cb d s =
     (length (timeouts s),
      s\<lparr>timeouts := timeouts s @ [\<lparr>delay = d, callback = cb, tstate = Pending\<rparr>]\<rparr>)"

definition isPending :: "nat \<Rightarrow> Runner \<Rightarrow> bool" where
  "isPending h s = (h < length (timeouts s) \<and> tstate (timeouts s ! h) = Pending)"

definition clearTimeout :: "nat \<Rightarrow> Runner \<Rightarrow> Runner" where
  "clearTimeout h s =
     (if isPending h s
      then s\<lparr>timeouts := (timeouts s)[h := (timeouts s ! h)\<lparr>tstate := Cleared\<rparr>]\<rparr>
      else s)"

definition stopTask :: "nat \<Rightarrow> Runner \<Rightarrow> Runner" where
  "stopTask h s =
     (if h < length (cronTasks s)
      then s\<lparr>cronTasks := (cronTasks s)[h := (cronTasks s ! h)\<lparr>stopped := True\<rparr>]\<rparr>
      else s)"

subsection \<open>The repository\<close>

definition findOneBy :: "string \<Rightarrow> Runner \<Rightarrow> JobEntity option" where
  "findOneBy ident s = find (\<lambda>j. job_id j = ident) (repo s)"

definition save :: "JobEntity \<Rightarrow> Runner \<Rightarrow> Runner" where
  "save job s =
     s\<lparr>repo := (if job_id job \<in> job_id ` set (repo s)
                then map (\<lambda>j. if job_id j = job_id job then job else j) (repo s)
                else repo s @ [job])\<rparr>"

section \<open>The execution queue\<close>

definition enqueue :: "string \<Rightarrow> Runner \<Rightarrow> Runner" where
  "enqueue fn s =
     (if running s < concurrency
      then s\<lparr>running := running s + 1, started := started s @ [fn]\<rparr>
      else s\<lparr>queue := queue s @ [fn]\<rparr>)"

definition taskDone :: "Runner \<Rightarrow> Runner" where
  "taskDone s =
     (let s1 = s\<lparr>running := running s - 1\<rparr>
      in case queue s1 of
           [] \<Rightarrow> s1
         | next # rest \<Rightarrow>
             s1\<lparr>queue := rest, running := running s1 + 1, started := started s1 @ [next]\<rparr>)"

section \<open>Arming\<close>

text \<open>
  \<open>now\<close> is the value of \<^verbatim>\<open>Date.now()\<close> at the call. The \<^verbatim>\<open>catch\<close> of
  \<^verbatim>\<open>scheduleOneOff\<close> guards code that does not throw on a well-formed date.
\<close>

definition scheduleOneOff :: "JobEntity \<Rightarrow> int \<Rightarrow> Runner \<Rightarrow> Runner" where
  "scheduleOneOff job now s =
     (case (case scheduling job of None \<Rightarrow> None | Some sch \<Rightarrow> execute_at sch) of
        None \<Rightarrow> s
      | Some runAt \<Rightarrow>
          if runAt \<le> now \<and> status job = Scheduled then enqueue (job_id job) s
          else
            let d = max 0 (runAt - now) in
            if d > MAX_TIMEOUT
            then (case setTimeout (Recheck job) (min d MAX_TIMEOUT) s of
                    (t, s1) \<Rightarrow> s1\<lparr>timers := AList.update (job_id job) t (timers s1)\<rparr>)
            else (case setTimeout (RunOneOff (job_id job)) d s of
                    (t, s1) \<Rightarrow> s1\<lparr>timers := AList.update (job_id job) t (timers s1)\<rparr>))"

text \<open>
  \<^verbatim>\<open>cron.schedule\<close> belongs to \<^verbatim>\<open>node-cron\<close>; whether it accepts an expression and the
  options or throws is the parameter \<open>accepts\<close>. A throw is caught and logged, and
  nothing is registered.
\<close>

definition scheduleRecurring ::
  "(string \<Rightarrow> string option \<Rightarrow> bool) \<Rightarrow> JobEntity \<Rightarrow> Runner \<Rightarrow> Runner" where
  "scheduleRecurring accepts job s =
     (case (case scheduling job of None \<Rightarrow> None | Some sch \<Rightarrow> cron sch) of
        None \<Rightarrow> s
      | Some cronExpr \<Rightarrow>
          if cronExpr = [] then s
          else
            let tzone = (case scheduling job of None \<Rightarrow> None | Some sch \<Rightarrow> timezone sch);
                opts = (case tzone of None \<Rightarrow> None
                        | Some z \<Rightarrow> if z = [] then None else Some z)
            in if accepts cronExpr opts
               then s\<lparr>cronTasks := cronTasks s @
                         [\<lparr>expression = cronExpr, options = opts,
                           target = job_id job, stopped = False\<rparr>],
                       cronJobs := AList.update (job_id job) (length (cronTasks s)) (cronJobs s)\<rparr>
               else s)"

definition scheduleNewJob ::
  "(string \<Rightarrow> string option \<Rightarrow> bool) \<Rightarrow> JobEntity \<Rightarrow> int \<Rightarrow> Runner \<Rightarrow> Runner" where
  "scheduleNewJob accepts job now s =
     (if job_type job = Oneoff then scheduleOneOff job now s
      else scheduleRecurring accepts job s)"

definition onModuleInit ::
  "(string \<Rightarrow> string option \<Rightarrow> bool) \<Rightarrow> int \<Rightarrow> Runner \<Rightarrow> Runner" where
  "onModuleInit accepts now s =
     fold (\<lambda>job st. case job_type job of
                      Oneoff \<Rightarrow> scheduleOneOff job now st
                    | Recurring \<Rightarrow> scheduleRecurring accepts job st)
          (repo s) s"

section \<open>Firing\<close>

definition runCallback :: "Callback \<Rightarrow> int \<Rightarrow> Runner \<Rightarrow> Runner" where
  "runCallback cb now s =
     (case cb of
        Recheck job \<Rightarrow>
          scheduleOneOff job now (s\<lparr>timers := AList.delete (job_id job) (timers s)\<rparr>)
      | RunOneOff ident \<Rightarrow>
          enqueue ident (s\<lparr>timers := AList.delete ident (timers s)\<rparr>)
      | RunRetry ident attempt \<Rightarrow>
          enqueue ident (s\<lparr>timers := AList.delete (retryKey ident attempt) (timers s)\<rparr>))"

definition fireTimeout :: "nat \<Rightarrow> int \<Rightarrow> Runner \<Rightarrow> Runner" where
  "fireTimeout h now s =
     (if isPending h s
      then runCallback (callback (timeouts s ! h)) now
             (s\<lparr>timeouts := (timeouts s)[h := (timeouts s ! h)\<lparr>tstate := Fired\<rparr>]\<rparr>)
      else s)"

definition fireCron :: "nat \<Rightarrow> Runner \<Rightarrow> Runner" where
  "fireCron h s =
     (if h < length (cronTasks s) \<and> stopped (cronTasks s ! h) = False
      then enqueue (target (cronTasks s ! h)) s
      else s)"

section \<open>The executor\<close>

text \<open>
  The request of \<^verbatim>\<open>execute\<close> either returns a response, whose status is kept, or
  throws, in which case \<^verbatim>\<open>responseStatus\<close> stays 0 and \<^verbatim>\<open>errorMessage\<close> is set.
  \<^verbatim>\<open>Math.random()\<close> is the parameter \<open>rnd\<close>. \<^verbatim>\<open>execute\<close> is split at the point where
  it awaits the request: \<open>execute_begin\<close> is all that precedes it, \<open>execute_end\<close>
  all that follows.
\<close>

datatype HttpOutcome = Response int | TransportError string

definition responseStatus :: "HttpOutcome \<Rightarrow> int" where
  "responseStatus out = (case out of Response st \<Rightarrow> st | TransportError m \<Rightarrow> 0)"

definition errorMessage :: "HttpOutcome \<Rightarrow> string option" where
  "errorMessage out = (case out of Response st \<Rightarrow> None | TransportError m \<Rightarrow> Some m)"

definition success :: "HttpOutcome \<Rightarrow> bool" where
  "success out = (responseStatus out > 0 \<and> responseStatus out < 400)"

definition execute_begin :: "string \<Rightarrow> Runner \<Rightarrow> Runner \<times> JobEntity option" where
  "execute_begin ident s =
     (case findOneBy ident s of
        None \<Rightarrow> (s, None)
      | Some job \<Rightarrow>
          if status job = Running then (s, None)
          else
            let job1 = job\<lparr>status := Running, attempt_count := attempt_count job + 1\<rparr>
            in (save job1 s, Some job1))"

definition retriesEnabled :: "JobEntity \<Rightarrow> bool" where
  "retriesEnabled job =
     (case retries job of None \<Rightarrow> False
      | Some r \<Rightarrow> (case enabled r of None \<Rightarrow> False | Some b \<Rightarrow> b))"

definition maxAttempts :: "JobEntity \<Rightarrow> int" where
  "maxAttempts job =
     (case retries job of None \<Rightarrow> 0
      | Some r \<Rightarrow> (case max_attempts r of None \<Rightarrow> 0 | Some n \<Rightarrow> n))"

definition retryable :: "JobEntity \<Rightarrow> int list" where
  "retryable job =
     (case retries job of None \<Rightarrow> []
      | Some r \<Rightarrow> (case retryable_statuses r of None \<Rightarrow> [] | Some l \<Rightarrow> l))"

definition isRetryable :: "JobEntity \<Rightarrow> HttpOutcome \<Rightarrow> bool" where
  "isRetryable job out =
     (case errorMessage out of
        Some m \<Rightarrow> True
      | None \<Rightarrow> responseStatus out \<in> set (retryable job))"

text \<open>
  The delay of a retry is computed here in exact arithmetic: \<open>rnd\<close> is a real and the
  result an unbounded integer. The code computes it in IEEE doubles. The two agree
  wherever the product \<^verbatim>\<open>Math.random() * base\<close> and the sum are exact in doubles, as
  for \<open>rnd = 1 / 2\<close> and a small attempt; elsewhere the code's product can round up to
  the next integer (so that its floor is larger by one) and its sum is rounded from about
  attempt 44 on.
\<close>

definition retryDelay :: "nat \<Rightarrow> real \<Rightarrow> int" where
  "retryDelay attempt rnd =
     (let base = 1000; backoff = 2 ^ attempt * base; jitter = \<lfloor>rnd * real_of_int base\<rfloor>
      in backoff + jitter)"

definition failureMessage :: "HttpOutcome \<Rightarrow> string" where
  "failureMessage out =
     (case errorMessage out of
        Some m \<Rightarrow> m
      | None \<Rightarrow> ''status:'' @ numberToString (responseStatus out))"

definition execute_end :: "JobEntity \<Rightarrow> HttpOutcome \<Rightarrow> real \<Rightarrow> Runner \<Rightarrow> Runner" where
  "execute_end job out rnd s =
     (if success out
      then save (job\<lparr>last_error := None,
                     status := (if job_type job = Oneoff then Completed else Scheduled),
                     attempt_count := 0\<rparr>) s
      else
        let job1 = job\<lparr>last_error := Some (failureMessage out)\<rparr>;
            s1 = save job1 s
        in if retriesEnabled job1 \<and> int (attempt_count job1) < maxAttempts job1
              \<and> isRetryable job1 out
           then
             let attempt = attempt_count job1
             in (case setTimeout (RunRetry (job_id job1) attempt) (retryDelay attempt rnd) s1 of
                   (t, s2) \<Rightarrow>
                     s2\<lparr>timers := AList.update (retryKey (job_id job1) attempt) t (timers s2)\<rparr>)
           else save (job1\<lparr>status := Failed\<rparr>) s1)"

definition execute :: "string \<Rightarrow> HttpOutcome \<Rightarrow> real \<Rightarrow> Runner \<Rightarrow> Runner" where
  "execute ident out rnd s =
     (case execute_begin ident s of
        (s1, None) \<Rightarrow> s1
      | (s1, Some job) \<Rightarrow> execute_end job out rnd s1)"

section \<open>Disarming\<close>

text \<open>
  The body of the loop of \<^verbatim>\<open>unscheduleJob\<close> over a snapshot of the keys of
  \<^verbatim>\<open>timers\<close>: a key that starts with the retry prefix of the id has its timeout
  cleared, if the map still holds one, and is deleted.
\<close>

definition clearRetryTimer :: "string \<Rightarrow> string \<Rightarrow> Runner \<Rightarrow> Runner" where
  "clearRetryTimer ident key st =
     (if startsWith key (retryPrefix ident)
      then (let st1 = (case map_of (timers st) key of
                         None \<Rightarrow> st
                       | Some rt \<Rightarrow> clearTimeout rt st)
            in st1\<lparr>timers := AList.delete key (timers st1)\<rparr>)
      else st)"

definition unscheduleJob :: "string \<Rightarrow> Runner \<Rightarrow> Runner" where
  "unscheduleJob ident s =
     (let s1 = (case map_of (timers s) ident of
                  None \<Rightarrow> s
                | Some t \<Rightarrow> (clearTimeout t s)\<lparr>timers := AList.delete ident (timers s)\<rparr>);
          s2 = fold (clearRetryTimer ident) (map fst (timers s1)) s1
      in case map_of (cronJobs s2) ident of
           None \<Rightarrow> s2
         | Some task \<Rightarrow> (stopTask task s2)\<lparr>cronJobs := AList.delete ident (cronJobs s2)\<rparr>)"

definition unscheduleAll :: "Runner \<Rightarrow> Runner" where
  "unscheduleAll s =
     (let s1 = fold (\<lambda>(key, t) st. (clearTimeout t st)\<lparr>timers := AList.delete key (timers st)\<rparr>)
                    (timers s) s
      in fold (\<lambda>(ident, task) st.
                 (stopTask task st)\<lparr>cronJobs := AList.delete ident (cronJobs st)\<rparr>)
              (cronJobs s1) s1)"

section \<open>Runs of the queue and of the whole runner\<close>

text \<open>
  A run of the execution queue is a sequence of submissions and completions. The promise
  chain of \<^verbatim>\<open>enqueue\<close> ends in \<^verbatim>\<open>.catch(...).finally(() => this._taskDone())\<close>, so a
  completion calls \<open>taskDone\<close> whether the task's body threw (\<open>Complete True\<close>) or not.
  A run is admissible when each completion belongs to a task that was started and has
  not completed before; \<open>n\<close> counts the completions so far.
\<close>

datatype QueueEvent = Submit string | Complete bool

fun queueStep :: "QueueEvent \<Rightarrow> Runner \<Rightarrow> Runner" where
  "queueStep (Submit fn) s = enqueue fn s"
| "queueStep (Complete threw) s = taskDone s"

definition runQueue :: "QueueEvent list \<Rightarrow> Runner \<Rightarrow> Runner" where
  "runQueue evs s = fold queueStep evs s"

fun submitted :: "QueueEvent list \<Rightarrow> string list" where
  "submitted [] = []"
| "submitted (Submit fn # es) = fn # submitted es"
| "submitted (Complete threw # es) = submitted es"

fun completions :: "QueueEvent list \<Rightarrow> nat" where
  "completions [] = 0"
| "completions (Submit fn # es) = completions es"
| "completions (Complete threw # es) = Suc (completions es)"

fun admissible :: "Runner \<Rightarrow> nat \<Rightarrow> QueueEvent list \<Rightarrow> bool" where
  "admissible s n [] = True"
| "admissible s n (Submit fn # es) = admissible (enqueue fn s) n es"
| "admissible s n (Complete threw # es) =
     (n < length (started s) \<and> admissible (taskDone s) (Suc n) es)"

text \<open>
  The runner as a whole moves by the calls of its public methods, by the host firing a
  timeout or a cron task, by a queued task starting and ending \<^verbatim>\<open>execute\<close>, and by the
  scheduler service writing to the repository.
\<close>

datatype Event =
    Arm JobEntity int
  | Startup int
  | TimeoutFires nat int
  | CronFires nat
  | ExecuteBegins string
  | ExecuteEnds JobEntity HttpOutcome real
  | TaskEnds
  | Unschedule string
  | UnscheduleEverything
  | Store JobEntity
  | Remove string

fun step :: "(string \<Rightarrow> string option \<Rightarrow> bool) \<Rightarrow> Event \<Rightarrow> Runner \<Rightarrow> Runner" where
  "step accepts (Arm job now) s = scheduleNewJob accepts job now s"
| "step accepts (Startup now) s = onModuleInit accepts now s"
| "step accepts (TimeoutFires h now) s = fireTimeout h now s"
| "step accepts (CronFires h) s = fireCron h s"
| "step accepts (ExecuteBegins ident) s = fst (execute_begin ident s)"
| "step accepts (ExecuteEnds job out rnd) s = execute_end job out rnd s"
| "step accepts TaskEnds s = taskDone s"
| "step accepts (Unschedule ident) s = unscheduleJob ident s"
| "step accepts UnscheduleEverything s = unscheduleAll s"
| "step accepts (Store job) s = save job s"
| "step accepts (Remove ident) s = s\<lparr>repo := filter (\<lambda>j. job_id j \<noteq> ident) (repo s)\<rparr>"

definition run :: "(string \<Rightarrow> string option \<Rightarrow> bool) \<Rightarrow> Event list \<Rightarrow> Runner \<Rightarrow> Runner" where
  "run accepts evs s = fold (step accepts) evs s"

section \<open>Concrete jobs\<close>

definition webhook :: JobEntity where
  "webhook =
     \<lparr>job_id = ''j1'', job_type = Oneoff,
      scheduling = Some \<lparr>execute_at = Some 1000, cron = None, timezone = Some ''UTC''\<rparr>,
      retries = Some \<lparr>enabled = Some True, max_attempts = Some 3,
                      retryable_statuses = Some [429, 500]\<rparr>,
      status = Scheduled, attempt_count = 0, last_error = None\<rparr>"

definition flaky :: JobEntity where
  "flaky =
     \<lparr>job_id = ''j2'', job_type = Oneoff,
      scheduling = Some \<lparr>execute_at = Some 1000, cron = None, timezone = Some ''UTC''\<rparr>,
      retries = Some \<lparr>enabled = Some True, max_attempts = Some 2,
                      retryable_statuses = Some [503]\<rparr>,
      status = Scheduled, attempt_count = 0, last_error = None\<rparr>"

definition nightly :: JobEntity where
  "nightly =
     \<lparr>job_id = ''j3'', job_type = Recurring,
      scheduling = Some \<lparr>execute_at = None, cron = Some ''0 0 * * *'', timezone = Some ''UTC''\<rparr>,
      retries = None,
      status = Scheduled, attempt_count = 0, last_error = None\<rparr>"

definition armedRegistry :: Runner where
  "armedRegistry =
     initial\<lparr>timers := [(''j1'', 0), (''j1:retry:1'', 1), (''j2'', 2)],
             cronJobs := [(''j1'', 0), (''j3'', 1)],
             timeouts := [\<lparr>delay = 600, callback = RunOneOff ''j1'', tstate = Pending\<rparr>,
                          \<lparr>delay = 2500, callback = RunRetry ''j1'' 1, tstate = Pending\<rparr>,
                          \<lparr>delay = 900, callback = RunOneOff ''j2'', tstate = Pending\<rparr>],
             cronTasks := [\<lparr>expression = ''* * * * *'', options = None, target = ''j1'',
                             stopped = False\<rparr>,
                           \<lparr>expression = ''0 0 * * *'', options = Some ''UTC'', target = ''j3'',
                             stopped = False\<rparr>]\<rparr>"

definition anyCron :: "string \<Rightarrow> string option \<Rightarrow> bool" where
  "anyCron e z = True"

section \<open>Facts about the repository\<close>

lemma findOneBy_job_id: "findOneBy ident s = Some job \<Longrightarrow> job_id job = ident"
  by (auto simp: findOneBy_def dest: find_Some_iff[THEN iffD1])

lemma find_map_replace:
  "find (\<lambda>j. job_id j = job_id job) (map (\<lambda>j. if job_id j = job_id job then job else j) xs)
     = (if job_id job \<in> job_id ` set xs then Some job else None)"
  by (induction xs) auto

lemma find_append_new:
  "job_id job \<notin> job_id ` set xs \<Longrightarrow> find (\<lambda>j. job_id j = job_id job) (xs @ [job]) = Some job"
  by (induction xs) auto

lemma findOneBy_save: "findOneBy (job_id job) (save job s) = Some job"
  by (simp add: findOneBy_def save_def find_map_replace find_append_new)

lemma map_replace_absent:
  "job_id b \<notin> job_id ` set xs \<Longrightarrow> map (\<lambda>j. if job_id j = job_id b then b else j) xs = xs"
  by (induction xs) auto

lemma map_replace_twice:
  "job_id a = job_id b \<Longrightarrow>
   map (\<lambda>j. if job_id j = job_id b then b else j) (map (\<lambda>j. if job_id j = job_id b then a else j) xs)
     = map (\<lambda>j. if job_id j = job_id b then b else j) xs"
  by (induction xs) auto

lemma ids_map_replace:
  "job_id a = job_id b \<Longrightarrow>
   job_id b \<in> job_id ` set (map (\<lambda>j. if job_id j = job_id b then a else j) xs)
     \<longleftrightarrow> job_id b \<in> job_id ` set xs"
  by (induction xs) auto

lemma save_save: "job_id a = job_id b \<Longrightarrow> save b (save a s) = save b s"
proof (cases "job_id b \<in> job_id ` set (repo s)")
  case True
  assume eq: "job_id a = job_id b"
  have "job_id b \<in> job_id ` set (map (\<lambda>j. if job_id j = job_id b then a else j) (repo s))"
    using True eq ids_map_replace by blast
  with True eq show ?thesis
    by (simp add: save_def map_replace_twice del: set_map)
next
  case False
  assume eq: "job_id a = job_id b"
  with False show ?thesis
    by (simp add: save_def map_replace_absent)
qed

lemma findOneBy_other_fields [simp]:
  "findOneBy ident (s\<lparr>timers := ts\<rparr>) = findOneBy ident s"
  "findOneBy ident (s\<lparr>timeouts := tos\<rparr>) = findOneBy ident s"
  by (simp_all add: findOneBy_def)

lemma save_other_fields [simp]:
  "timers (save job s) = timers s"
  "cronJobs (save job s) = cronJobs s"
  "running (save job s) = running s"
  "queue (save job s) = queue s"
  "started (save job s) = started s"
  "timeouts (save job s) = timeouts s"
  "cronTasks (save job s) = cronTasks s"
  by (simp_all add: save_def)

section \<open>Facts about the executor\<close>

lemma policy_ignores_last_error [simp]:
  "retriesEnabled (job\<lparr>last_error := e\<rparr>) = retriesEnabled job"
  "maxAttempts (job\<lparr>last_error := e\<rparr>) = maxAttempts job"
  "retryable (job\<lparr>last_error := e\<rparr>) = retryable job"
  "isRetryable (job\<lparr>last_error := e\<rparr>) out = isRetryable job out"
  by (simp_all add: retriesEnabled_def maxAttempts_def retryable_def isRetryable_def
      split: option.split)

lemma success_iff: "success out \<longleftrightarrow> (\<exists>st. out = Response st \<and> 1 \<le> st \<and> st < 400)"
  by (cases out) (auto simp: success_def responseStatus_def)

lemma execute_begin_runs:
  assumes "findOneBy ident s = Some job" and "status job \<noteq> Running"
  shows "execute_begin ident s =
           (save (job\<lparr>status := Running, attempt_count := attempt_count job + 1\<rparr>) s,
            Some (job\<lparr>status := Running, attempt_count := attempt_count job + 1\<rparr>))"
  using assms by (simp add: execute_begin_def Let_def)

lemma execute_runs:
  assumes "findOneBy ident s = Some job" and "status job \<noteq> Running"
  shows "execute ident out rnd s =
           execute_end (job\<lparr>status := Running, attempt_count := attempt_count job + 1\<rparr>) out rnd
             (save (job\<lparr>status := Running, attempt_count := attempt_count job + 1\<rparr>) s)"
  using assms by (simp add: execute_def execute_begin_runs)

lemma execute_end_success:
  "success out \<Longrightarrow>
   execute_end job out rnd (save job s) =
     save (job\<lparr>last_error := None,
               status := (if job_type job = Oneoff then Completed else Scheduled),
               attempt_count := 0\<rparr>) s"
  by (simp add: execute_end_def save_save)

lemma execute_end_failed:
  assumes "\<not> success out"
    and "\<not> (retriesEnabled job \<and> int (attempt_count job) < maxAttempts job \<and> isRetryable job out)"
  shows "execute_end job out rnd (save job s) =
           save (job\<lparr>last_error := Some (failureMessage out), status := Failed\<rparr>) s"
  using assms by (auto simp add: execute_end_def Let_def save_save)

lemma execute_end_retry:
  assumes "\<not> success out"
    and "retriesEnabled job" and "int (attempt_count job) < maxAttempts job"
    and "isRetryable job out"
  shows "execute_end job out rnd (save job s) =
           (save (job\<lparr>last_error := Some (failureMessage out)\<rparr>) s)
             \<lparr>timeouts := timeouts s @
                 [\<lparr>delay = 2 ^ attempt_count job * 1000 + \<lfloor>rnd * 1000\<rfloor>,
                   callback = RunRetry (job_id job) (attempt_count job), tstate = Pending\<rparr>],
              timers := AList.update (retryKey (job_id job) (attempt_count job))
                          (length (timeouts s)) (timers s)\<rparr>"
  using assms
  by (simp add: execute_end_def Let_def save_save setTimeout_def retryDelay_def)

lemma jitter_range:
  assumes "0 \<le> rnd" and "rnd < 1"
  shows "0 \<le> \<lfloor>rnd * 1000\<rfloor> \<and> \<lfloor>rnd * 1000\<rfloor> < 1000"
  using assms by (simp add: floor_less_iff)

lemmas eval_defs = execute_def execute_begin_def execute_end_def findOneBy_def save_def
  success_def responseStatus_def errorMessage_def retriesEnabled_def maxAttempts_def
  retryable_def isRetryable_def retryDelay_def failureMessage_def setTimeout_def
  retryKey_def retryPrefix_def numberToString_def digits.simps Let_def initial_def
  enqueue_def taskDone_def concurrency_def fireTimeout_def runCallback_def isPending_def

section \<open>Claims about one execution attempt\<close>

text \<open>
  C4. An attempt on a stored job that is not already running counts as a success exactly
  when a response arrived whose status lies in \<open>[1, 400)\<close>: a transport failure, status
  0 and any status from 400 on are failures. On success the executor clears
  \<open>last_error\<close>, sets the status to \<open>Completed\<close> for a one-off job and to
  \<open>Scheduled\<close> for a recurring one, resets \<open>attempt_count\<close> to 0 and saves the job;
  nothing else of the state changes. On failure the saved job carries the failure message
  instead.
\<close>

theorem execute_success:
  assumes "findOneBy ident s = Some job" and "status job \<noteq> Running"
  shows "(success out \<longleftrightarrow> (\<exists>st. out = Response st \<and> 1 \<le> st \<and> st < 400)) \<and>
         (success out \<longrightarrow>
            execute ident out rnd s =
              save (job\<lparr>last_error := None,
                        status := (if job_type job = Oneoff then Completed else Scheduled),
                        attempt_count := 0\<rparr>) s \<and>
            findOneBy ident (execute ident out rnd s) =
              Some (job\<lparr>last_error := None,
                        status := (if job_type job = Oneoff then Completed else Scheduled),
                        attempt_count := 0\<rparr>)) \<and>
         (\<not> success out \<longrightarrow>
            map_option last_error (findOneBy ident (execute ident out rnd s))
              = Some (Some (failureMessage out)))"
proof -
  let ?job1 = "job\<lparr>status := Running, attempt_count := attempt_count job + 1\<rparr>"
  have idj: "job_id job = ident" using assms(1) by (rule findOneBy_job_id)
  have ex: "execute ident out rnd s = execute_end ?job1 out rnd (save ?job1 s)"
    using assms by (rule execute_runs)
  have ok: "execute ident out rnd s =
              save (?job1\<lparr>last_error := None,
                        status := (if job_type job = Oneoff then Completed else Scheduled),
                        attempt_count := 0\<rparr>) s" if "success out"
    using that ex execute_end_success[of out ?job1 rnd s] by simp
  have ok2: "findOneBy ident (execute ident out rnd s) =
              Some (?job1\<lparr>last_error := None,
                        status := (if job_type job = Oneoff then Completed else Scheduled),
                        attempt_count := 0\<rparr>)" if "success out"
    using ok[OF that] idj
      findOneBy_save[of "?job1\<lparr>last_error := None,
                        status := (if job_type job = Oneoff then Completed else Scheduled),
                        attempt_count := 0\<rparr>" s]
    by simp
  have bad: "map_option last_error (findOneBy ident (execute ident out rnd s))
              = Some (Some (failureMessage out))" if "\<not> success out"
  proof (cases "retriesEnabled ?job1 \<and> int (attempt_count ?job1) < maxAttempts ?job1 \<and> isRetryable ?job1 out")
    case True
    then have "execute ident out rnd s =
           (save (?job1\<lparr>last_error := Some (failureMessage out)\<rparr>) s)
             \<lparr>timeouts := timeouts s @
                 [\<lparr>delay = 2 ^ attempt_count ?job1 * 1000 + \<lfloor>rnd * 1000\<rfloor>,
                   callback = RunRetry (job_id ?job1) (attempt_count ?job1), tstate = Pending\<rparr>],
              timers := AList.update (retryKey (job_id ?job1) (attempt_count ?job1))
                          (length (timeouts s)) (timers s)\<rparr>"
      using that ex execute_end_retry[of out ?job1 rnd s] by simp
    then show ?thesis
      using idj findOneBy_save[of "?job1\<lparr>last_error := Some (failureMessage out)\<rparr>" s] by simp
  next
    case False
    then have "execute ident out rnd s =
           save (?job1\<lparr>last_error := Some (failureMessage out), status := Failed\<rparr>) s"
      using that ex execute_end_failed[of out ?job1 rnd s] by simp
    then show ?thesis
      using idj findOneBy_save[of "?job1\<lparr>last_error := Some (failureMessage out), status := Failed\<rparr>" s] by simp
  qed
  show ?thesis using success_iff ok ok2 bad by simp
qed

theorem execute_success_witness:
  "findOneBy ''j1'' (save webhook initial) = Some webhook \<and> status webhook \<noteq> Running \<and>
   success (Response 200) \<and> \<not> success (Response 404) \<and> \<not> success (TransportError ''ECONNREFUSED'') \<and>
   execute ''j1'' (Response 200) 0 (save webhook initial) =
     save (webhook\<lparr>status := Completed, last_error := None\<rparr>) initial \<and>
   map_option last_error (findOneBy ''j1'' (execute ''j1'' (Response 404) 0 (save webhook initial)))
     = Some (Some ''status:404'')"
  using execute_success[of "''j1''" "save webhook initial" webhook "Response 200" 0]
    execute_success[of "''j1''" "save webhook initial" webhook "Response 404" 0]
  by (simp add: eval_defs webhook_def)

text \<open>
  C5. \<open>execute\<close> does nothing when the store has no job with the given id, and nothing
  when the stored job is \<open>Running\<close>: the whole state, and with it \<open>attempt_count\<close>,
  is left as it was.
\<close>

theorem execute_noop:
  assumes "findOneBy ident s = None \<or> (\<exists>job. findOneBy ident s = Some job \<and> status job = Running)"
  shows "execute ident out rnd s = s \<and> execute_begin ident s = (s, None)"
  using assms by (auto simp: execute_def execute_begin_def)

theorem execute_noop_witness:
  "findOneBy ''zz'' (save webhook initial) = None \<and>
   execute ''zz'' (Response 200) 0 (save webhook initial) = save webhook initial \<and>
   findOneBy ''j1'' (save (webhook\<lparr>status := Running, attempt_count := 1\<rparr>) initial)
     = Some (webhook\<lparr>status := Running, attempt_count := 1\<rparr>) \<and>
   execute ''j1'' (Response 200) 0 (save (webhook\<lparr>status := Running, attempt_count := 1\<rparr>) initial)
     = save (webhook\<lparr>status := Running, attempt_count := 1\<rparr>) initial"
  using execute_noop[of "''zz''" "save webhook initial" "Response 200" 0]
    execute_noop[of "''j1''" "save (webhook\<lparr>status := Running, attempt_count := 1\<rparr>) initial" "Response 200" 0]
  by (simp add: findOneBy_def save_def initial_def webhook_def)

text \<open>
  C6. When the retry policy of a job is unset, or its \<open>enabled\<close> member is unset or
  false, one failed attempt saves the job as \<open>Failed\<close>; no timer is armed and nothing
  is queued.
\<close>

theorem failure_without_retries:
  assumes "findOneBy ident s = Some job" and "status job \<noteq> Running" and "\<not> success out"
    and "retries job = None \<or> (\<exists>r. retries job = Some r \<and> (enabled r = None \<or> enabled r = Some False))"
  shows "execute ident out rnd s =
           save (job\<lparr>attempt_count := attempt_count job + 1,
                     last_error := Some (failureMessage out), status := Failed\<rparr>) s \<and>
         findOneBy ident (execute ident out rnd s) =
           Some (job\<lparr>attempt_count := attempt_count job + 1,
                     last_error := Some (failureMessage out), status := Failed\<rparr>) \<and>
         timers (execute ident out rnd s) = timers s \<and>
         timeouts (execute ident out rnd s) = timeouts s \<and>
         queue (execute ident out rnd s) = queue s \<and>
         started (execute ident out rnd s) = started s"
proof -
  let ?job1 = "job\<lparr>status := Running, attempt_count := attempt_count job + 1\<rparr>"
  have idj: "job_id job = ident" using assms(1) by (rule findOneBy_job_id)
  have "\<not> retriesEnabled ?job1"
    using assms(4) by (auto simp: retriesEnabled_def)
  then have "execute_end ?job1 out rnd (save ?job1 s) =
           save (?job1\<lparr>last_error := Some (failureMessage out), status := Failed\<rparr>) s"
    using assms(3) execute_end_failed[of out ?job1 rnd s] by simp
  then have ex: "execute ident out rnd s =
           save (?job1\<lparr>last_error := Some (failureMessage out), status := Failed\<rparr>) s"
    using execute_runs[OF assms(1,2)] by simp
  show ?thesis
    using ex idj findOneBy_save[of "?job1\<lparr>last_error := Some (failureMessage out), status := Failed\<rparr>" s]
    by simp
qed

theorem failure_without_retries_witness:
  "findOneBy ''j3'' (save nightly initial) = Some nightly \<and> status nightly \<noteq> Running \<and>
   \<not> success (Response 500) \<and> retries nightly = None \<and>
   execute ''j3'' (Response 500) 0 (save nightly initial) =
     save (nightly\<lparr>status := Failed, attempt_count := 1, last_error := Some ''status:500''\<rparr>) initial \<and>
   execute ''j1'' (TransportError ''ECONNRESET'') 0
       (save (webhook\<lparr>retries := Some \<lparr>enabled = Some False, max_attempts = Some 3,
                                          retryable_statuses = Some [500]\<rparr>\<rparr>) initial) =
     save (webhook\<lparr>retries := Some \<lparr>enabled = Some False, max_attempts = Some 3,
                                       retryable_statuses = Some [500]\<rparr>,
                   status := Failed, attempt_count := 1, last_error := Some ''ECONNRESET''\<rparr>) initial"
  using failure_without_retries[of "''j3''" "save nightly initial" nightly "Response 500" 0]
    failure_without_retries[of "''j1''"
      "save (webhook\<lparr>retries := Some \<lparr>enabled = Some False, max_attempts = Some 3,
                                        retryable_statuses = Some [500]\<rparr>\<rparr>) initial"
      "webhook\<lparr>retries := Some \<lparr>enabled = Some False, max_attempts = Some 3,
                                  retryable_statuses = Some [500]\<rparr>\<rparr>"
      "TransportError ''ECONNRESET''" 0]
  by (simp add: eval_defs nightly_def webhook_def)

text \<open>
  C1. A retry-eligible failure: the job \<open>webhook\<close> allows three attempts and lists 500
  as retryable. After the first attempt answers 500, \<open>execute\<close> has armed the retry
  timer under the key \<open>j1:retry:1\<close>, with \<open>attempt_count\<close> kept at 1, but the saved
  status is \<open>Running\<close>, the value written before the request; it is not set back to
  \<open>Scheduled\<close>.
\<close>

theorem retry_armed_but_status_running:
  "execute ''j1'' (Response 500) (1/2) (save webhook initial) =
     initial\<lparr>timers := [(''j1:retry:1'', 0)],
             repo := [webhook\<lparr>status := Running, attempt_count := 1,
                              last_error := Some ''status:500''\<rparr>],
             timeouts := [\<lparr>delay = 2500, callback = RunRetry ''j1'' 1, tstate = Pending\<rparr>]\<rparr>"
  by (simp add: eval_defs webhook_def)

text \<open>
  C3. The job \<open>flaky\<close> allows two attempts and lists 503 as retryable; its target always
  answers 503. The first attempt arms the retry timer with delay \<open>2 ^ 1 * 1000 + 500\<close>.
  When that timer fires and the queue starts the task, \<open>execute\<close> finds the job
  \<open>Running\<close> and returns at once: there is no second attempt, \<open>attempt_count\<close> stays 1
  and the job never becomes \<open>Failed\<close>.
\<close>

theorem retry_fires_into_noop:
  "execute ''j2'' (Response 503) (1/2)
     (fireTimeout 0 9000
        (taskDone
           (execute ''j2'' (Response 503) (1/2)
              (enqueue ''j2'' (save flaky initial))))) =
     initial\<lparr>running := 1, started := [''j2'', ''j2''],
             repo := [flaky\<lparr>status := Running, attempt_count := 1,
                            last_error := Some ''status:503''\<rparr>],
             timeouts := [\<lparr>delay = 2500, callback = RunRetry ''j2'' 1, tstate = Fired\<rparr>]\<rparr>"
  by (simp add: eval_defs flaky_def)

section \<open>Facts about the execution queue\<close>

lemma enqueue_keeps_bound:
  assumes "running s \<le> concurrency" and "queue s = [] \<or> running s = concurrency"
  shows "running (enqueue fn s) \<le> concurrency"
    and "queue (enqueue fn s) = [] \<or> running (enqueue fn s) = concurrency"
    and "started (enqueue fn s) @ queue (enqueue fn s) = started s @ queue s @ [fn]"
  using assms by (auto simp: enqueue_def)

lemma taskDone_keeps_bound:
  assumes "running s \<le> concurrency" and "queue s = [] \<or> running s = concurrency"
  shows "running (taskDone s) \<le> concurrency"
    and "queue (taskDone s) = [] \<or> running (taskDone s) = concurrency"
    and "started (taskDone s) @ queue (taskDone s) = started s @ queue s"
  using assms by (auto simp: taskDone_def Let_def concurrency_def split: list.split)

lemma runQueue_keeps_bound:
  assumes "running s \<le> concurrency" and "queue s = [] \<or> running s = concurrency"
  shows "running (runQueue evs s) \<le> concurrency
         \<and> (queue (runQueue evs s) = [] \<or> running (runQueue evs s) = concurrency)
         \<and> started (runQueue evs s) @ queue (runQueue evs s)
             = started s @ queue s @ submitted evs"
  using assms
proof (induction evs arbitrary: s)
  case Nil
  then show ?case by (simp add: runQueue_def)
next
  case (Cons e evs)
  show ?case
  proof (cases e)
    case (Submit fn)
    have "running (runQueue evs (enqueue fn s)) \<le> concurrency
         \<and> (queue (runQueue evs (enqueue fn s)) = [] \<or> running (runQueue evs (enqueue fn s)) = concurrency)
         \<and> started (runQueue evs (enqueue fn s)) @ queue (runQueue evs (enqueue fn s))
             = started (enqueue fn s) @ queue (enqueue fn s) @ submitted evs"
      using Cons.prems by (intro Cons.IH enqueue_keeps_bound)
    then show ?thesis
      using Submit enqueue_keeps_bound(3)[OF Cons.prems, of fn]
      by (simp add: runQueue_def)
  next
    case (Complete threw)
    have "running (runQueue evs (taskDone s)) \<le> concurrency
         \<and> (queue (runQueue evs (taskDone s)) = [] \<or> running (runQueue evs (taskDone s)) = concurrency)
         \<and> started (runQueue evs (taskDone s)) @ queue (runQueue evs (taskDone s))
             = started (taskDone s) @ queue (taskDone s) @ submitted evs"
      using Cons.prems by (intro Cons.IH taskDone_keeps_bound)
    then show ?thesis
      using Complete taskDone_keeps_bound(3)[OF Cons.prems]
      by (simp add: runQueue_def)
  qed
qed

lemma enqueue_in_flight:
  assumes "n \<le> length (started s)" and "running s = length (started s) - n"
  shows "n \<le> length (started (enqueue fn s))"
    and "running (enqueue fn s) = length (started (enqueue fn s)) - n"
  using assms by (auto simp: enqueue_def)

lemma taskDone_in_flight:
  assumes "n < length (started s)" and "running s = length (started s) - n"
  shows "Suc n \<le> length (started (taskDone s))"
    and "running (taskDone s) = length (started (taskDone s)) - Suc n"
  using assms by (auto simp: taskDone_def Let_def split: list.split)

lemma runQueue_in_flight:
  assumes "admissible s n evs" and "n \<le> length (started s)"
    and "running s = length (started s) - n"
  shows "running (runQueue evs s) = length (started (runQueue evs s)) - (n + completions evs)"
  using assms
proof (induction s n evs rule: admissible.induct)
  case (1 s n)
  then show ?case by (simp add: runQueue_def)
next
  case (2 s n fn es)
  have "running (runQueue es (enqueue fn s))
          = length (started (runQueue es (enqueue fn s))) - (n + completions es)"
    using 2 by (intro "2.IH" enqueue_in_flight) simp_all
  then show ?case by (simp add: runQueue_def)
next
  case (3 s n threw es)
  from "3.prems"(1) have lt: "n < length (started s)" and adm: "admissible (taskDone s) (Suc n) es"
    by simp_all
  have "running (runQueue es (taskDone s))
          = length (started (runQueue es (taskDone s))) - (Suc n + completions es)"
    using adm taskDone_in_flight[OF lt "3.prems"(3)] by (intro "3.IH") simp_all
  then show ?case by (simp add: runQueue_def)
qed

text \<open>
  C7. In every run of the queue from the initial state the running count never exceeds
  \<open>concurrency\<close>, which is 5, and in an admissible run it is exactly the number of
  tasks started and not yet completed. \<open>enqueue\<close> starts the task at once while fewer
  than \<open>concurrency\<close> are running and otherwise appends it to the pending list. A
  completion, whether the task's body threw or not, decrements the count and then starts
  the head of the pending list, if there is one. The tasks started so far followed by the
  pending ones are the submitted tasks in submission order, and tasks wait only while the
  queue is saturated.
\<close>

theorem queue_bounded_and_fifo:
  "concurrency = 5
   \<and> running (runQueue evs initial) \<le> concurrency
   \<and> started (runQueue evs initial) @ queue (runQueue evs initial) = submitted evs
   \<and> (queue (runQueue evs initial) \<noteq> [] \<longrightarrow> running (runQueue evs initial) = concurrency)
   \<and> (admissible initial 0 evs \<longrightarrow>
        running (runQueue evs initial)
          = length (started (runQueue evs initial)) - completions evs)
   \<and> (running s < concurrency \<longrightarrow>
        enqueue fn s = s\<lparr>running := running s + 1, started := started s @ [fn]\<rparr>)
   \<and> (\<not> running s < concurrency \<longrightarrow> enqueue fn s = s\<lparr>queue := queue s @ [fn]\<rparr>)
   \<and> (queue s = [] \<longrightarrow> queueStep (Complete threw) s = s\<lparr>running := running s - 1\<rparr>)
   \<and> (queue s = nxt # rest \<longrightarrow>
        queueStep (Complete threw) s
          = s\<lparr>running := running s - 1 + 1, queue := rest, started := started s @ [nxt]\<rparr>)"
proof -
  have init: "running initial \<le> concurrency" "queue initial = [] \<or> running initial = concurrency"
    by (simp_all add: initial_def)
  have a: "running (runQueue evs initial) \<le> concurrency
         \<and> (queue (runQueue evs initial) = [] \<or> running (runQueue evs initial) = concurrency)
         \<and> started (runQueue evs initial) @ queue (runQueue evs initial)
             = started initial @ queue initial @ submitted evs"
    using init by (rule runQueue_keeps_bound)
  have b: "running (runQueue evs initial)
          = length (started (runQueue evs initial)) - completions evs" if "admissible initial 0 evs"
    using runQueue_in_flight[OF that] by (simp add: initial_def)
  have c: "started initial @ queue initial @ submitted evs = submitted evs"
    by (simp add: initial_def)
  show ?thesis
    using a b c by (auto simp: concurrency_def enqueue_def taskDone_def Let_def)
qed

theorem queue_bounded_and_fifo_witness:
  "admissible initial 0
     [Submit ''a'', Submit ''b'', Submit ''c'', Submit ''d'', Submit ''e'', Submit ''f'',
      Submit ''g'', Complete False, Complete True, Submit ''h'']
   \<and> runQueue
     [Submit ''a'', Submit ''b'', Submit ''c'', Submit ''d'', Submit ''e'', Submit ''f'',
      Submit ''g'', Complete False, Complete True, Submit ''h''] initial
     = initial\<lparr>running := 5, queue := [''h''],
               started := [''a'', ''b'', ''c'', ''d'', ''e'', ''f'', ''g'']\<rparr>
   \<and> queueStep (Complete True) (initial\<lparr>running := 5, queue := [''h'']\<rparr>)
       = initial\<lparr>running := 5, queue := [], started := [''h'']\<rparr>
   \<and> enqueue ''x'' (initial\<lparr>running := 5, queue := [''h'']\<rparr>)
       = initial\<lparr>running := 5, queue := [''h'', ''x'']\<rparr>
   \<and> enqueue ''x'' (initial\<lparr>running := 4\<rparr>) = initial\<lparr>running := 5, started := [''x'']\<rparr>
   \<and> queueStep (Complete False) (initial\<lparr>running := 4\<rparr>) = initial\<lparr>running := 3\<rparr>"
proof -
  have saturated:
    "admissible initial 0
       [Submit ''a'', Submit ''b'', Submit ''c'', Submit ''d'', Submit ''e'', Submit ''f'',
        Submit ''g'', Complete False, Complete True, Submit ''h'']
     \<and> runQueue
       [Submit ''a'', Submit ''b'', Submit ''c'', Submit ''d'', Submit ''e'', Submit ''f'',
        Submit ''g'', Complete False, Complete True, Submit ''h''] initial
       = initial\<lparr>running := 5, queue := [''h''],
                 started := [''a'', ''b'', ''c'', ''d'', ''e'', ''f'', ''g'']\<rparr>
     \<and> queueStep (Complete True) (initial\<lparr>running := 5, queue := [''h'']\<rparr>)
         = initial\<lparr>running := 5, queue := [], started := [''h'']\<rparr>
     \<and> enqueue ''x'' (initial\<lparr>running := 5, queue := [''h'']\<rparr>)
         = initial\<lparr>running := 5, queue := [''h'', ''x'']\<rparr>"
    using queue_bounded_and_fifo[of
        "[Submit ''a'', Submit ''b'', Submit ''c'', Submit ''d'', Submit ''e'', Submit ''f'',
        Submit ''g'', Complete False, Complete True, Submit ''h'']"
        "initial\<lparr>running := 5, queue := [''h'']\<rparr>" "''x''" True "''h''" "[]"]
    by (simp add: runQueue_def enqueue_def taskDone_def Let_def initial_def concurrency_def)
  have idle:
    "enqueue ''x'' (initial\<lparr>running := 4\<rparr>) = initial\<lparr>running := 5, started := [''x'']\<rparr>
     \<and> queueStep (Complete False) (initial\<lparr>running := 4\<rparr>) = initial\<lparr>running := 3\<rparr>"
    using queue_bounded_and_fifo[of "[]" "initial\<lparr>running := 4\<rparr>" "''x''" False "''h''" "[]"]
    by (simp add: runQueue_def enqueue_def taskDone_def Let_def initial_def concurrency_def)
  show ?thesis
    using saturated idle by blast
qed

section \<open>Facts about arming\<close>

lemma scheduleOneOff_immediate:
  assumes "scheduling job = Some sch" and "execute_at sch = Some runAt"
    and "runAt \<le> now" and "status job = Scheduled"
  shows "scheduleOneOff job now s = enqueue (job_id job) s"
  using assms by (simp add: scheduleOneOff_def)

lemma scheduleOneOff_recheck:
  assumes "scheduling job = Some sch" and "execute_at sch = Some runAt"
    and "\<not> (runAt \<le> now \<and> status job = Scheduled)" and "max 0 (runAt - now) > MAX_TIMEOUT"
  shows "scheduleOneOff job now s =
           s\<lparr>timeouts := timeouts s @
                 [\<lparr>delay = min (max 0 (runAt - now)) MAX_TIMEOUT, callback = Recheck job,
                   tstate = Pending\<rparr>],
             timers := AList.update (job_id job) (length (timeouts s)) (timers s)\<rparr>"
  using assms by (auto simp add: scheduleOneOff_def setTimeout_def Let_def)

lemma scheduleOneOff_wait:
  assumes "scheduling job = Some sch" and "execute_at sch = Some runAt"
    and "\<not> (runAt \<le> now \<and> status job = Scheduled)" and "\<not> max 0 (runAt - now) > MAX_TIMEOUT"
  shows "scheduleOneOff job now s =
           s\<lparr>timeouts := timeouts s @
                 [\<lparr>delay = max 0 (runAt - now), callback = RunOneOff (job_id job),
                   tstate = Pending\<rparr>],
             timers := AList.update (job_id job) (length (timeouts s)) (timers s)\<rparr>"
  using assms by (auto simp add: scheduleOneOff_def setTimeout_def Let_def)

lemma fire_new_timeout:
  "fireTimeout (length (timeouts s)) now'
     (s\<lparr>timeouts := timeouts s @ [\<lparr>delay = d, callback = cb, tstate = Pending\<rparr>],
        timers := AList.update k (length (timeouts s)) (timers s)\<rparr>)
   = runCallback cb now'
       (s\<lparr>timeouts := timeouts s @ [\<lparr>delay = d, callback = cb, tstate = Fired\<rparr>],
          timers := AList.update k (length (timeouts s)) (timers s)\<rparr>)"
  by (cases s) (simp add: fireTimeout_def isPending_def)

text \<open>
  C8, as the code has it. For a one-off job with an \<open>execute_at\<close>: when the time has
  come and the job is \<open>Scheduled\<close>, arming schedules no wait at all and submits the
  execution to the queue at once. In every other case it computes the delay
  \<open>max 0 (execute_at - now)\<close>. A delay above \<open>MAX_TIMEOUT\<close> gets a wake-up after
  \<open>min delay MAX_TIMEOUT\<close> whose firing only drops the registry entry and arms the job
  again at the new time; fired when due, it leaves a delay shorter by \<open>MAX_TIMEOUT\<close>.
  Any other delay gets a single wait of exactly the delay, whose firing drops the registry
  entry and submits the execution to the queue.
\<close>

theorem scheduleOneOff_arms:
  assumes "scheduling job = Some sch" and "execute_at sch = Some runAt"
  shows
    "(runAt \<le> now \<and> status job = Scheduled \<longrightarrow>
        scheduleOneOff job now s = enqueue (job_id job) s)
     \<and> (\<not> (runAt \<le> now \<and> status job = Scheduled) \<and> max 0 (runAt - now) > MAX_TIMEOUT \<longrightarrow>
        scheduleOneOff job now s =
          s\<lparr>timeouts := timeouts s @
                [\<lparr>delay = min (max 0 (runAt - now)) MAX_TIMEOUT, callback = Recheck job,
                  tstate = Pending\<rparr>],
            timers := AList.update (job_id job) (length (timeouts s)) (timers s)\<rparr>
        \<and> fireTimeout (length (timeouts s)) now' (scheduleOneOff job now s) =
          scheduleOneOff job now'
            (s\<lparr>timeouts := timeouts s @
                  [\<lparr>delay = min (max 0 (runAt - now)) MAX_TIMEOUT, callback = Recheck job,
                    tstate = Fired\<rparr>],
               timers := AList.delete (job_id job) (timers s)\<rparr>)
        \<and> max 0 (runAt - (now + min (max 0 (runAt - now)) MAX_TIMEOUT))
            = max 0 (runAt - now) - MAX_TIMEOUT)
     \<and> (\<not> (runAt \<le> now \<and> status job = Scheduled) \<and> \<not> max 0 (runAt - now) > MAX_TIMEOUT \<longrightarrow>
        scheduleOneOff job now s =
          s\<lparr>timeouts := timeouts s @
                [\<lparr>delay = max 0 (runAt - now), callback = RunOneOff (job_id job),
                  tstate = Pending\<rparr>],
            timers := AList.update (job_id job) (length (timeouts s)) (timers s)\<rparr>
        \<and> fireTimeout (length (timeouts s)) now' (scheduleOneOff job now s) =
          enqueue (job_id job)
            (s\<lparr>timeouts := timeouts s @
                  [\<lparr>delay = max 0 (runAt - now), callback = RunOneOff (job_id job),
                    tstate = Fired\<rparr>],
               timers := AList.delete (job_id job) (timers s)\<rparr>))"
proof (intro conjI impI)
  assume "runAt \<le> now \<and> status job = Scheduled"
  then show "scheduleOneOff job now s = enqueue (job_id job) s"
    using assms by (simp add: scheduleOneOff_immediate)
next
  assume a: "\<not> (runAt \<le> now \<and> status job = Scheduled) \<and> max 0 (runAt - now) > MAX_TIMEOUT"
  show r: "scheduleOneOff job now s =
          s\<lparr>timeouts := timeouts s @
                [\<lparr>delay = min (max 0 (runAt - now)) MAX_TIMEOUT, callback = Recheck job,
                  tstate = Pending\<rparr>],
            timers := AList.update (job_id job) (length (timeouts s)) (timers s)\<rparr>"
    using assms a by (intro scheduleOneOff_recheck) simp_all
  show "fireTimeout (length (timeouts s)) now' (scheduleOneOff job now s) =
          scheduleOneOff job now'
            (s\<lparr>timeouts := timeouts s @
                  [\<lparr>delay = min (max 0 (runAt - now)) MAX_TIMEOUT, callback = Recheck job,
                    tstate = Fired\<rparr>],
               timers := AList.delete (job_id job) (timers s)\<rparr>)"
    unfolding r fire_new_timeout by (cases s) (simp add: runCallback_def delete_update_same)
  show "max 0 (runAt - (now + min (max 0 (runAt - now)) MAX_TIMEOUT))
            = max 0 (runAt - now) - MAX_TIMEOUT"
    using a by (auto simp add: MAX_TIMEOUT_def max_def min_def split: if_splits)
next
  assume a: "\<not> (runAt \<le> now \<and> status job = Scheduled) \<and> \<not> max 0 (runAt - now) > MAX_TIMEOUT"
  show r: "scheduleOneOff job now s =
          s\<lparr>timeouts := timeouts s @
                [\<lparr>delay = max 0 (runAt - now), callback = RunOneOff (job_id job),
                  tstate = Pending\<rparr>],
            timers := AList.update (job_id job) (length (timeouts s)) (timers s)\<rparr>"
    using assms a by (intro scheduleOneOff_wait) simp_all
  show "fireTimeout (length (timeouts s)) now' (scheduleOneOff job now s) =
          enqueue (job_id job)
            (s\<lparr>timeouts := timeouts s @
                  [\<lparr>delay = max 0 (runAt - now), callback = RunOneOff (job_id job),
                    tstate = Fired\<rparr>],
               timers := AList.delete (job_id job) (timers s)\<rparr>)"
    unfolding r fire_new_timeout by (cases s) (simp add: runCallback_def delete_update_same)
qed

lemmas arm_defs = scheduleOneOff_def setTimeout_def enqueue_def concurrency_def
  MAX_TIMEOUT_def fireTimeout_def runCallback_def isPending_def Let_def initial_def

theorem scheduleOneOff_arms_witness:
  "scheduling webhook = Some \<lparr>execute_at = Some 1000, cron = None, timezone = Some ''UTC''\<rparr>
   \<and> scheduleOneOff webhook 5000 initial = enqueue ''j1'' initial
   \<and> \<not> (1000 \<le> (-2999999000::int) \<and> status webhook = Scheduled)
   \<and> max 0 (1000 - (-2999999000)) > MAX_TIMEOUT
   \<and> scheduleOneOff webhook (-2999999000) initial =
       initial\<lparr>timeouts := [\<lparr>delay = 2147483647, callback = Recheck webhook, tstate = Pending\<rparr>],
               timers := [(''j1'', 0)]\<rparr>
   \<and> fireTimeout 0 (-852515353) (scheduleOneOff webhook (-2999999000) initial) =
       initial\<lparr>timeouts := [\<lparr>delay = 2147483647, callback = Recheck webhook, tstate = Fired\<rparr>,
                            \<lparr>delay = 852516353, callback = RunOneOff ''j1'', tstate = Pending\<rparr>],
               timers := [(''j1'', 1)]\<rparr>
   \<and> \<not> (1000 \<le> (400::int) \<and> status webhook = Scheduled)
   \<and> \<not> max 0 (1000 - 400) > MAX_TIMEOUT
   \<and> scheduleOneOff webhook 400 initial =
       initial\<lparr>timeouts := [\<lparr>delay = 600, callback = RunOneOff ''j1'', tstate = Pending\<rparr>],
               timers := [(''j1'', 0)]\<rparr>
   \<and> fireTimeout 0 1000 (scheduleOneOff webhook 400 initial) =
       initial\<lparr>timeouts := [\<lparr>delay = 600, callback = RunOneOff ''j1'', tstate = Fired\<rparr>],
               running := 1, started := [''j1'']\<rparr>"
  using scheduleOneOff_arms[of webhook "\<lparr>execute_at = Some 1000, cron = None, timezone = Some ''UTC''\<rparr>"
      1000 5000 initial 0]
    scheduleOneOff_arms[of webhook "\<lparr>execute_at = Some 1000, cron = None, timezone = Some ''UTC''\<rparr>"
      1000 "-2999999000" initial "-852515353"]
    scheduleOneOff_arms[of webhook "\<lparr>execute_at = Some 1000, cron = None, timezone = Some ''UTC''\<rparr>"
      1000 400 initial 1000]
  by (simp add: arm_defs webhook_def)

text \<open>
  The statement without the first case fails: for the job \<open>webhook\<close>, which is
  \<open>Scheduled\<close> and due since time 1000, arming at time 5000 computes the delay 0 and yet
  schedules no wait and registers no timer; the execution goes straight to the queue.
\<close>

theorem due_scheduled_job_gets_no_timer:
  "scheduleOneOff webhook 5000 initial = initial\<lparr>running := 1, started := [''j1'']\<rparr>
   \<and> timeouts (scheduleOneOff webhook 5000 initial) = []
   \<and> timers (scheduleOneOff webhook 5000 initial) = []"
  by (simp add: arm_defs webhook_def)

lemma findOneBy_same_repo: "repo s' = repo s \<Longrightarrow> findOneBy ident s' = findOneBy ident s"
  by (simp add: findOneBy_def)

lemma repo_enqueue [simp]: "repo (enqueue fn s) = repo s"
  by (simp add: enqueue_def)

section \<open>Facts about disarming\<close>

lemma clearTimeout_fields [simp]:
  "timers (clearTimeout h s) = timers s"
  "cronJobs (clearTimeout h s) = cronJobs s"
  "cronTasks (clearTimeout h s) = cronTasks s"
  "running (clearTimeout h s) = running s"
  "queue (clearTimeout h s) = queue s"
  "started (clearTimeout h s) = started s"
  "repo (clearTimeout h s) = repo s"
  "length (timeouts (clearTimeout h s)) = length (timeouts s)"
  by (simp_all add: clearTimeout_def)

lemma clearTimeout_clears: "\<not> isPending h (clearTimeout h s)"
  by (simp add: clearTimeout_def isPending_def)

lemma clearTimeout_mono: "\<not> isPending h s \<Longrightarrow> \<not> isPending h (clearTimeout h' s)"
  by (auto simp: clearTimeout_def isPending_def nth_list_update)

lemma clearTimeout_noop: "\<not> isPending h s \<Longrightarrow> clearTimeout h s = s"
  by (simp add: clearTimeout_def)

lemma isPending_timers_update [simp]: "isPending h (s\<lparr>timers := ts\<rparr>) = isPending h s"
  by (simp add: isPending_def)

lemma isPending_cron_update [simp]:
  "isPending h (s\<lparr>cronJobs := cj\<rparr>) = isPending h s"
  "isPending h (stopTask task s) = isPending h s"
  by (simp_all add: isPending_def stopTask_def)

lemma stopTask_fields [simp]:
  "timers (stopTask h s) = timers s"
  "cronJobs (stopTask h s) = cronJobs s"
  "timeouts (stopTask h s) = timeouts s"
  by (simp_all add: stopTask_def)

lemma stopTask_stops: "task < length (cronTasks s) \<Longrightarrow> stopped (cronTasks (stopTask task s) ! task)"
  by (simp add: stopTask_def)

lemma startsWith_length: "startsWith s p \<Longrightarrow> length p \<le> length s"
  by (induction s p rule: startsWith.induct) auto

lemma startsWith_append: "startsWith (p @ x) p"
  by (induction p) auto

lemma retry_key_differs: "startsWith key (retryPrefix ident) \<Longrightarrow> key \<noteq> ident"
  using startsWith_length[of key "retryPrefix ident"] by (auto simp: retryPrefix_def)

lemma clearRetryTimer_timers:
  "timers (clearRetryTimer ident key st) =
     (if startsWith key (retryPrefix ident) then AList.delete key (timers st) else timers st)"
  by (simp add: clearRetryTimer_def Let_def split: option.split)

lemma clearRetryTimer_cron [simp]:
  "cronJobs (clearRetryTimer ident key st) = cronJobs st"
  "cronTasks (clearRetryTimer ident key st) = cronTasks st"
  by (simp_all add: clearRetryTimer_def Let_def split: option.split)

lemma clearRetryTimer_mono:
  "\<not> isPending h st \<Longrightarrow> \<not> isPending h (clearRetryTimer ident key st)"
  by (simp add: clearRetryTimer_def Let_def clearTimeout_mono split: option.split)

lemma clearRetryTimer_clears:
  "startsWith key (retryPrefix ident) \<Longrightarrow> map_of (timers st) key = Some rt
   \<Longrightarrow> \<not> isPending rt (clearRetryTimer ident key st)"
  by (simp add: clearRetryTimer_def Let_def clearTimeout_clears)

lemma clearRetryTimer_skip:
  "\<not> startsWith key (retryPrefix ident) \<Longrightarrow> clearRetryTimer ident key st = st"
  by (simp add: clearRetryTimer_def)

lemma delete_as_filter: "AList.delete k al = filter (\<lambda>e. fst e \<noteq> k) al"
  by (induction al) auto

lemma loop_timers:
  "timers (fold (clearRetryTimer ident) ks st) =
     filter (\<lambda>e. \<not> (fst e \<in> set ks \<and> startsWith (fst e) (retryPrefix ident))) (timers st)"
proof (induction ks arbitrary: st)
  case Nil
  then show ?case by simp
next
  case (Cons k ks)
  show ?case
    by (auto simp add: Cons.IH clearRetryTimer_timers delete_as_filter intro!: filter_cong)
qed

lemma loop_cron [simp]:
  "cronJobs (fold (clearRetryTimer ident) ks st) = cronJobs st"
  "cronTasks (fold (clearRetryTimer ident) ks st) = cronTasks st"
  by (induction ks arbitrary: st) simp_all

lemma loop_mono:
  "\<not> isPending h st \<Longrightarrow> \<not> isPending h (fold (clearRetryTimer ident) ks st)"
  by (induction ks arbitrary: st) (simp_all add: clearRetryTimer_mono)

lemma loop_clears:
  "key \<in> set ks \<Longrightarrow> startsWith key (retryPrefix ident) \<Longrightarrow> map_of (timers st) key = Some rt
   \<Longrightarrow> \<not> isPending rt (fold (clearRetryTimer ident) ks st)"
proof (induction ks arbitrary: st)
  case Nil
  then show ?case by simp
next
  case (Cons k ks)
  show ?case
  proof (cases "key = k")
    case True
    then have "\<not> isPending rt (clearRetryTimer ident k st)"
      using Cons.prems by (simp add: clearRetryTimer_clears)
    then show ?thesis by (simp add: loop_mono)
  next
    case False
    then have "key \<in> set ks" using Cons.prems by simp
    moreover have "map_of (timers (clearRetryTimer ident k st)) key = Some rt"
      using False Cons.prems by (simp add: clearRetryTimer_timers)
    ultimately show ?thesis
      using Cons.IH[of "clearRetryTimer ident k st"] Cons.prems by simp
  qed
qed

lemma loop_skip:
  "\<forall>k \<in> set ks. \<not> startsWith k (retryPrefix ident) \<Longrightarrow> fold (clearRetryTimer ident) ks st = st"
  by (induction ks arbitrary: st) (simp_all add: clearRetryTimer_skip)

lemma map_of_is_key: "map_of xs k = Some v \<Longrightarrow> k \<in> fst ` set xs"
  by (auto dest: map_of_SomeD intro: rev_image_eqI)

lemma delete_absent: "map_of al k = None \<Longrightarrow> AList.delete k al = al"
  by (simp add: map_of_eq_None_iff)

lemma main_timer_step_timers:
  "timers (case map_of (timers s) ident of
             None \<Rightarrow> s
           | Some t \<Rightarrow> (clearTimeout t s)\<lparr>timers := AList.delete ident (timers s)\<rparr>)
     = AList.delete ident (timers s)"
  by (simp add: delete_absent split: option.split)

lemma main_timer_step_cron [simp]:
  "cronJobs (case map_of (timers s) ident of
             None \<Rightarrow> s
           | Some t \<Rightarrow> (clearTimeout t s)\<lparr>timers := AList.delete ident (timers s)\<rparr>)
     = cronJobs s"
  "cronTasks (case map_of (timers s) ident of
             None \<Rightarrow> s
           | Some t \<Rightarrow> (clearTimeout t s)\<lparr>timers := AList.delete ident (timers s)\<rparr>)
     = cronTasks s"
  by (simp_all split: option.split)

lemma main_timer_step_mono:
  "\<not> isPending h s \<Longrightarrow>
   \<not> isPending h (case map_of (timers s) ident of
             None \<Rightarrow> s
           | Some t \<Rightarrow> (clearTimeout t s)\<lparr>timers := AList.delete ident (timers s)\<rparr>)"
  by (simp add: clearTimeout_mono split: option.split)

lemma cron_step_pending [simp]:
  "isPending h (case m of
                  None \<Rightarrow> s2
                | Some task \<Rightarrow> (stopTask task s2)\<lparr>cronJobs := f task\<rparr>)
     = isPending h s2"
  by (cases m) simp_all

lemma filter_known_keys:
  "filter (\<lambda>e. \<not> (fst e \<in> set (map fst al) \<and> P (fst e))) al = filter (\<lambda>e. \<not> P (fst e)) al"
  by (rule filter_cong) auto

lemma unscheduleJob_timers:
  "timers (unscheduleJob ident s) =
     filter (\<lambda>e. fst e \<noteq> ident \<and> \<not> startsWith (fst e) (retryPrefix ident)) (timers s)"
proof -
  let ?s1 = "case map_of (timers s) ident of
               None \<Rightarrow> s
             | Some t \<Rightarrow> (clearTimeout t s)\<lparr>timers := AList.delete ident (timers s)\<rparr>"
  have "timers (unscheduleJob ident s)
          = timers (fold (clearRetryTimer ident) (map fst (timers ?s1)) ?s1)"
    unfolding unscheduleJob_def Let_def by (cases "map_of (cronJobs s) ident") simp_all
  also have "\<dots> = filter (\<lambda>e. \<not> (fst e \<in> set (map fst (timers ?s1))
                                   \<and> startsWith (fst e) (retryPrefix ident))) (timers ?s1)"
    by (rule loop_timers)
  also have "\<dots> = filter (\<lambda>e. \<not> startsWith (fst e) (retryPrefix ident)) (timers ?s1)"
    by (rule filter_known_keys)
  also have "\<dots> = filter (\<lambda>e. \<not> startsWith (fst e) (retryPrefix ident))
                     (AList.delete ident (timers s))"
    by (simp only: main_timer_step_timers)
  finally show ?thesis
    by (simp add: delete_as_filter conj_commute)
qed

lemma unscheduleJob_cronJobs:
  "cronJobs (unscheduleJob ident s) = AList.delete ident (cronJobs s)"
  unfolding unscheduleJob_def Let_def
  by (simp add: delete_absent split: option.split)

lemma unscheduleJob_mono:
  "\<not> isPending h s \<Longrightarrow> \<not> isPending h (unscheduleJob ident s)"
  unfolding unscheduleJob_def Let_def
  by (simp add: loop_mono main_timer_step_mono)

lemma unscheduleJob_clears_main:
  assumes "map_of (timers s) ident = Some t"
  shows "\<not> isPending t (unscheduleJob ident s)"
  unfolding unscheduleJob_def Let_def
  using assms by (simp add: loop_mono clearTimeout_clears)

lemma unscheduleJob_clears_retry:
  assumes "map_of (timers s) key = Some rt" and "startsWith key (retryPrefix ident)"
  shows "\<not> isPending rt (unscheduleJob ident s)"
proof -
  let ?s1 = "case map_of (timers s) ident of
               None \<Rightarrow> s
             | Some t \<Rightarrow> (clearTimeout t s)\<lparr>timers := AList.delete ident (timers s)\<rparr>"
  have ne: "key \<noteq> ident" using assms(2) by (rule retry_key_differs)
  have t1: "timers ?s1 = AList.delete ident (timers s)" by (rule main_timer_step_timers)
  have m: "map_of (timers ?s1) key = Some rt"
    unfolding t1 using ne assms(1) by simp
  then have "key \<in> set (map fst (timers ?s1))"
    using map_of_is_key[of "timers ?s1" key rt] by simp
  then have "\<not> isPending rt (fold (clearRetryTimer ident) (map fst (timers ?s1)) ?s1)"
    using assms(2) m by (rule loop_clears)
  then show ?thesis
    unfolding unscheduleJob_def Let_def by simp
qed

lemma unscheduleJob_stops:
  assumes "map_of (cronJobs s) ident = Some task" and "task < length (cronTasks s)"
  shows "stopped (cronTasks (unscheduleJob ident s) ! task)"
  unfolding unscheduleJob_def Let_def
  using assms by (simp add: stopTask_stops)

lemma unscheduleJob_nothing:
  assumes "map_of (timers s) ident = None"
    and "\<forall>k \<in> fst ` set (timers s). \<not> startsWith k (retryPrefix ident)"
    and "map_of (cronJobs s) ident = None"
  shows "unscheduleJob ident s = s"
  unfolding unscheduleJob_def Let_def
  using assms by (simp add: loop_skip)

lemma unscheduleJob_twice: "unscheduleJob ident (unscheduleJob ident s) = unscheduleJob ident s"
proof (rule unscheduleJob_nothing)
  show "map_of (timers (unscheduleJob ident s)) ident = None"
    by (auto simp add: unscheduleJob_timers map_of_eq_None_iff)
  show "\<forall>k \<in> fst ` set (timers (unscheduleJob ident s)). \<not> startsWith k (retryPrefix ident)"
    by (auto simp add: unscheduleJob_timers)
  show "map_of (cronJobs (unscheduleJob ident s)) ident = None"
    by (simp add: unscheduleJob_cronJobs delete_conv)
qed

text \<open>
  C9. \<open>unscheduleJob\<close> keeps exactly the timer entries whose key is neither the id
  nor a key with the id's retry prefix (the keys \<open>execute\<close> gives to retry timers have that
  prefix), and deletes the id from \<open>cronJobs\<close>. The timeout registered under the id and
  every timeout registered under a retry key of the id are no longer pending afterwards,
  and the cron task registered under the id is stopped. On a state with nothing
  registered for the id it changes nothing, and a second call in a row changes nothing
  more.
\<close>

theorem unscheduleJob_disarms_idempotent:
  "timers (unscheduleJob ident s) =
     filter (\<lambda>e. fst e \<noteq> ident \<and> \<not> startsWith (fst e) (retryPrefix ident)) (timers s)
   \<and> startsWith (retryKey ident attempt) (retryPrefix ident)
   \<and> cronJobs (unscheduleJob ident s) = AList.delete ident (cronJobs s)
   \<and> (map_of (timers s) ident = Some t \<longrightarrow> \<not> isPending t (unscheduleJob ident s))
   \<and> (map_of (timers s) key = Some rt \<and> startsWith key (retryPrefix ident) \<longrightarrow>
        \<not> isPending rt (unscheduleJob ident s))
   \<and> (map_of (cronJobs s) ident = Some task \<and> task < length (cronTasks s) \<longrightarrow>
        stopped (cronTasks (unscheduleJob ident s) ! task))
   \<and> (map_of (timers s) ident = None
        \<and> (\<forall>k \<in> fst ` set (timers s). \<not> startsWith k (retryPrefix ident))
        \<and> map_of (cronJobs s) ident = None \<longrightarrow> unscheduleJob ident s = s)
   \<and> unscheduleJob ident (unscheduleJob ident s) = unscheduleJob ident s"
proof (intro conjI impI)
  show "timers (unscheduleJob ident s) =
     filter (\<lambda>e. fst e \<noteq> ident \<and> \<not> startsWith (fst e) (retryPrefix ident)) (timers s)"
    by (rule unscheduleJob_timers)
  show "startsWith (retryKey ident attempt) (retryPrefix ident)"
    by (simp add: retryKey_def startsWith_append)
  show "cronJobs (unscheduleJob ident s) = AList.delete ident (cronJobs s)"
    by (rule unscheduleJob_cronJobs)
  show "\<not> isPending t (unscheduleJob ident s)" if "map_of (timers s) ident = Some t"
    using that by (rule unscheduleJob_clears_main)
  show "\<not> isPending rt (unscheduleJob ident s)"
    if "map_of (timers s) key = Some rt \<and> startsWith key (retryPrefix ident)"
    using that unscheduleJob_clears_retry by blast
  show "stopped (cronTasks (unscheduleJob ident s) ! task)"
    if "map_of (cronJobs s) ident = Some task \<and> task < length (cronTasks s)"
    using that unscheduleJob_stops by blast
  show "unscheduleJob ident s = s"
    if "map_of (timers s) ident = None
        \<and> (\<forall>k \<in> fst ` set (timers s). \<not> startsWith k (retryPrefix ident))
        \<and> map_of (cronJobs s) ident = None"
    using that unscheduleJob_nothing by blast
  show "unscheduleJob ident (unscheduleJob ident s) = unscheduleJob ident s"
    by (rule unscheduleJob_twice)
qed

theorem unscheduleJob_disarms_idempotent_witness:
  "map_of (timers armedRegistry) ''j1'' = Some 0
   \<and> map_of (timers armedRegistry) ''j1:retry:1'' = Some 1
   \<and> startsWith ''j1:retry:1'' (retryPrefix ''j1'')
   \<and> map_of (cronJobs armedRegistry) ''j1'' = Some 0
   \<and> 0 < length (cronTasks armedRegistry)
   \<and> unscheduleJob ''j1'' armedRegistry =
       initial\<lparr>timers := [(''j2'', 2)],
               cronJobs := [(''j3'', 1)],
               timeouts := [\<lparr>delay = 600, callback = RunOneOff ''j1'', tstate = Cleared\<rparr>,
                            \<lparr>delay = 2500, callback = RunRetry ''j1'' 1, tstate = Cleared\<rparr>,
                            \<lparr>delay = 900, callback = RunOneOff ''j2'', tstate = Pending\<rparr>],
               cronTasks := [\<lparr>expression = ''* * * * *'', options = None, target = ''j1'',
                               stopped = True\<rparr>,
                             \<lparr>expression = ''0 0 * * *'', options = Some ''UTC'', target = ''j3'',
                               stopped = False\<rparr>]\<rparr>
   \<and> \<not> isPending 0 (unscheduleJob ''j1'' armedRegistry)
   \<and> \<not> isPending 1 (unscheduleJob ''j1'' armedRegistry)
   \<and> unscheduleJob ''j1'' (unscheduleJob ''j1'' armedRegistry) = unscheduleJob ''j1'' armedRegistry
   \<and> map_of (timers armedRegistry) ''j9'' = None
   \<and> filter (\<lambda>k. startsWith k (retryPrefix ''j9'')) (map fst (timers armedRegistry)) = []
   \<and> map_of (cronJobs armedRegistry) ''j9'' = None
   \<and> unscheduleJob ''j9'' armedRegistry = armedRegistry"
  using unscheduleJob_disarms_idempotent[where ident = "''j1''" and s = armedRegistry
      and attempt = 1 and t = 0 and key = "''j1:retry:1''" and rt = 1 and task = 0]
    unscheduleJob_disarms_idempotent[where ident = "''j9''" and s = armedRegistry
      and attempt = 1 and t = 0 and key = "''j1:retry:1''" and rt = 1 and task = 0]
  by (simp add: armedRegistry_def initial_def unscheduleJob_def clearRetryTimer_def
      clearTimeout_def stopTask_def isPending_def retryPrefix_def Let_def)

section \<open>Facts about the registry\<close>

lemma enqueue_registry [simp]:
  "timers (enqueue fn s) = timers s"
  "cronJobs (enqueue fn s) = cronJobs s"
  "timeouts (enqueue fn s) = timeouts s"
  "cronTasks (enqueue fn s) = cronTasks s"
  by (simp_all add: enqueue_def)

lemma taskDone_registry [simp]:
  "timers (taskDone s) = timers s"
  "cronJobs (taskDone s) = cronJobs s"
  "timeouts (taskDone s) = timeouts s"
  "cronTasks (taskDone s) = cronTasks s"
  by (simp_all add: taskDone_def Let_def split: list.split)

lemma scheduleOneOff_cron [simp]:
  "cronJobs (scheduleOneOff job now s) = cronJobs s"
  "cronTasks (scheduleOneOff job now s) = cronTasks s"
  by (simp_all add: scheduleOneOff_def setTimeout_def Let_def split: option.split)

lemma scheduleOneOff_timers:
  "timers (scheduleOneOff job now s) = timers s
   \<or> timers (scheduleOneOff job now s)
       = AList.update (job_id job) (length (timeouts s)) (timers s)"
  by (simp add: scheduleOneOff_def setTimeout_def Let_def split: option.split)

lemma scheduleOneOff_timeouts:
  "timeouts (scheduleOneOff job now s) = timeouts s
   \<or> (\<exists>tm. timeouts (scheduleOneOff job now s) = timeouts s @ [tm])"
  by (simp add: scheduleOneOff_def setTimeout_def Let_def split: option.split)

lemma scheduleRecurring_timers [simp]:
  "timers (scheduleRecurring accepts job s) = timers s"
  "timeouts (scheduleRecurring accepts job s) = timeouts s"
  by (simp_all add: scheduleRecurring_def Let_def split: option.split)

lemma scheduleRecurring_cronJobs:
  "cronJobs (scheduleRecurring accepts job s) = cronJobs s
   \<or> cronJobs (scheduleRecurring accepts job s)
       = AList.update (job_id job) (length (cronTasks s)) (cronJobs s)"
  by (simp add: scheduleRecurring_def Let_def split: option.split)

lemma scheduleRecurring_cronTasks:
  "cronTasks (scheduleRecurring accepts job s) = cronTasks s
   \<or> (\<exists>c. cronTasks (scheduleRecurring accepts job s) = cronTasks s @ [c])"
  by (simp add: scheduleRecurring_def Let_def split: option.split)

lemma scheduleOneOff_distinct:
  "distinct (map fst (timers s)) \<Longrightarrow> distinct (map fst (timers (scheduleOneOff job now s)))"
  using scheduleOneOff_timers[of job now s] by (auto simp: distinct_update)

lemma scheduleRecurring_distinct:
  "distinct (map fst (cronJobs s))
   \<Longrightarrow> distinct (map fst (cronJobs (scheduleRecurring accepts job s)))"
  using scheduleRecurring_cronJobs[of accepts job s] by (auto simp: distinct_update)

lemma scheduleNewJob_distinct:
  assumes "distinct (map fst (timers s)) \<and> distinct (map fst (cronJobs s))"
  shows "distinct (map fst (timers (scheduleNewJob accepts job now s)))
         \<and> distinct (map fst (cronJobs (scheduleNewJob accepts job now s)))"
  using assms by (simp add: scheduleNewJob_def scheduleOneOff_distinct scheduleRecurring_distinct)

lemma startup_loop_distinct:
  assumes "distinct (map fst (timers s)) \<and> distinct (map fst (cronJobs s))"
  shows "distinct (map fst (timers (fold (\<lambda>job st. case job_type job of
                      Oneoff \<Rightarrow> scheduleOneOff job now st
                    | Recurring \<Rightarrow> scheduleRecurring accepts job st) jobs s)))
         \<and> distinct (map fst (cronJobs (fold (\<lambda>job st. case job_type job of
                      Oneoff \<Rightarrow> scheduleOneOff job now st
                    | Recurring \<Rightarrow> scheduleRecurring accepts job st) jobs s)))"
  using assms
proof (induction jobs arbitrary: s)
  case Nil
  then show ?case by simp
next
  case (Cons j jobs)
  show ?case
  proof (cases "job_type j")
    case Oneoff
    then show ?thesis
      using Cons.prems Cons.IH[of "scheduleOneOff j now s"]
      by (simp add: scheduleOneOff_distinct)
  next
    case Recurring
    then show ?thesis
      using Cons.prems Cons.IH[of "scheduleRecurring accepts j s"]
      by (simp add: scheduleRecurring_distinct)
  qed
qed

lemma fireTimeout_distinct:
  assumes "distinct (map fst (timers s)) \<and> distinct (map fst (cronJobs s))"
  shows "distinct (map fst (timers (fireTimeout h now s)))
         \<and> distinct (map fst (cronJobs (fireTimeout h now s)))"
  using assms
  by (auto simp add: fireTimeout_def runCallback_def distinct_delete
      intro!: scheduleOneOff_distinct split: Callback.split)

lemma execute_end_distinct:
  assumes "distinct (map fst (timers s)) \<and> distinct (map fst (cronJobs s))"
  shows "distinct (map fst (timers (execute_end job out rnd s)))
         \<and> distinct (map fst (cronJobs (execute_end job out rnd s)))"
  using assms
  by (simp add: execute_end_def setTimeout_def Let_def distinct_update)

lemma execute_begin_registry [simp]:
  "timers (fst (execute_begin ident s)) = timers s"
  "cronJobs (fst (execute_begin ident s)) = cronJobs s"
  by (simp_all add: execute_begin_def Let_def split: option.split)

lemma unscheduleJob_distinct:
  assumes "distinct (map fst (timers s)) \<and> distinct (map fst (cronJobs s))"
  shows "distinct (map fst (timers (unscheduleJob ident s)))
         \<and> distinct (map fst (cronJobs (unscheduleJob ident s)))"
  using assms
  by (simp add: unscheduleJob_timers unscheduleJob_cronJobs distinct_map_filter distinct_delete)

lemma fold_deletes_keys:
  assumes "\<And>x st. proj (f x st) = AList.delete (fst x) (proj st)"
  shows "proj (fold f xs st) = filter (\<lambda>e. fst e \<notin> fst ` set xs) (proj st)"
proof (induction xs arbitrary: st)
  case Nil
  then show ?case by simp
next
  case (Cons x xs)
  have "proj (fold f (x # xs) st) = filter (\<lambda>e. fst e \<notin> fst ` set xs) (proj (f x st))"
    using Cons.IH[of "f x st"] by simp
  also have "\<dots> = filter (\<lambda>e. fst e \<notin> fst ` set xs) (filter (\<lambda>e. fst e \<noteq> fst x) (proj st))"
    by (simp only: assms delete_as_filter)
  also have "\<dots> = filter (\<lambda>e. fst e \<notin> fst ` set (x # xs)) (proj st)"
    by (auto intro!: filter_cong)
  finally show ?case .
qed

lemma fold_keeps_field:
  assumes "\<And>x st. proj (f x st) = proj st"
  shows "proj (fold f xs st) = proj st"
  by (induction xs arbitrary: st) (simp_all add: assms)

lemma clear_all_timers:
  "timers (fold (\<lambda>(key, t) st. (clearTimeout t st)\<lparr>timers := AList.delete key (timers st)\<rparr>) xs st)
     = filter (\<lambda>e. fst e \<notin> fst ` set xs) (timers st)"
  by (rule fold_deletes_keys) (simp add: split_def)

lemma clear_all_keeps_cron:
  "cronJobs (fold (\<lambda>(key, t) st. (clearTimeout t st)\<lparr>timers := AList.delete key (timers st)\<rparr>) xs st)
     = cronJobs st"
  by (rule fold_keeps_field) (simp add: split_def)

lemma stop_all_tasks:
  "cronJobs (fold (\<lambda>(ident, task) st.
                 (stopTask task st)\<lparr>cronJobs := AList.delete ident (cronJobs st)\<rparr>) xs st)
     = filter (\<lambda>e. fst e \<notin> fst ` set xs) (cronJobs st)"
  by (rule fold_deletes_keys) (simp add: split_def)

lemma stop_all_keeps_timers:
  "timers (fold (\<lambda>(ident, task) st.
                 (stopTask task st)\<lparr>cronJobs := AList.delete ident (cronJobs st)\<rparr>) xs st)
     = timers st"
  by (rule fold_keeps_field) (simp add: split_def)

lemma unscheduleAll_empties: "timers (unscheduleAll s) = [] \<and> cronJobs (unscheduleAll s) = []"
  by (simp add: unscheduleAll_def Let_def clear_all_timers clear_all_keeps_cron stop_all_tasks
      stop_all_keeps_timers filter_empty_conv)

lemma step_distinct:
  assumes "distinct (map fst (timers s)) \<and> distinct (map fst (cronJobs s))"
  shows "distinct (map fst (timers (step accepts ev s)))
         \<and> distinct (map fst (cronJobs (step accepts ev s)))"
proof (cases ev)
  case (Arm job now)
  then show ?thesis using assms by (simp add: scheduleNewJob_distinct)
next
  case (Startup now)
  then show ?thesis using assms by (simp add: onModuleInit_def startup_loop_distinct)
next
  case (TimeoutFires h now)
  then show ?thesis using assms by (simp add: fireTimeout_distinct)
next
  case (CronFires h)
  then show ?thesis using assms by (simp add: fireCron_def)
next
  case (ExecuteBegins ident)
  then show ?thesis using assms by simp
next
  case (ExecuteEnds job out rnd)
  then show ?thesis using assms by (simp add: execute_end_distinct)
next
  case TaskEnds
  then show ?thesis using assms by simp
next
  case (Unschedule ident)
  then show ?thesis using assms by (simp add: unscheduleJob_distinct)
next
  case UnscheduleEverything
  then show ?thesis by (simp add: unscheduleAll_empties)
next
  case (Store job)
  then show ?thesis using assms by simp
next
  case (Remove ident)
  then show ?thesis using assms by simp
qed

lemma run_distinct:
  assumes "distinct (map fst (timers s)) \<and> distinct (map fst (cronJobs s))"
  shows "distinct (map fst (timers (run accepts evs s)))
         \<and> distinct (map fst (cronJobs (run accepts evs s)))"
  using assms unfolding run_def
proof (induction evs arbitrary: s)
  case Nil
  then show ?case by simp
next
  case (Cons ev evs)
  then show ?case using step_distinct[of s accepts ev] by simp
qed

lemma one_entry_per_key:
  "distinct (map fst al) \<Longrightarrow> length (filter (\<lambda>e. fst e = k) al) \<le> 1"
proof (induction al)
  case Nil
  then show ?case by simp
next
  case (Cons a al)
  show ?case
  proof (cases "fst a = k")
    case True
    then have "k \<notin> fst ` set al" using Cons.prems by auto
    then have "filter (\<lambda>e. fst e = k) al = []" by (auto simp: filter_empty_conv)
    then show ?thesis using True by simp
  next
    case False
    then show ?thesis using Cons by simp
  qed
qed

lemma isPending_append: "isPending h s \<Longrightarrow> isPending h (s\<lparr>timeouts := timeouts s @ [tm]\<rparr>)"
  by (simp add: isPending_def nth_append)

lemma isPending_same_timeouts: "timeouts s' = timeouts s \<Longrightarrow> isPending h s' = isPending h s"
  by (simp add: isPending_def)

lemma scheduleOneOff_keeps_pending:
  assumes "isPending h s"
  shows "isPending h (scheduleOneOff job now s)"
  using scheduleOneOff_timeouts[of job now s] assms
  by (auto simp: isPending_def nth_append)

lemma scheduleRecurring_keeps_pending:
  "isPending h (scheduleRecurring accepts job s) = isPending h s"
  by (rule isPending_same_timeouts) simp

lemma scheduleNewJob_keeps_pending:
  "isPending h s \<Longrightarrow> isPending h (scheduleNewJob accepts job now s)"
  by (simp add: scheduleNewJob_def scheduleOneOff_keeps_pending scheduleRecurring_keeps_pending)

lemma scheduleNewJob_keeps_tasks:
  assumes "c < length (cronTasks s)"
  shows "cronTasks (scheduleNewJob accepts job now s) ! c = cronTasks s ! c"
  using scheduleRecurring_cronTasks[of accepts job s] assms
  by (auto simp: scheduleNewJob_def nth_append)

lemma scheduleOneOff_new_entry:
  assumes "timeouts (scheduleOneOff job now s) \<noteq> timeouts s"
  shows "map_of (timers (scheduleOneOff job now s)) (job_id job) = Some (length (timeouts s))"
  using assms
  by (auto simp add: scheduleOneOff_def setTimeout_def Let_def update_conv' split: option.splits if_splits)

lemma scheduleRecurring_new_entry:
  assumes "cronTasks (scheduleRecurring accepts job s) \<noteq> cronTasks s"
  shows "map_of (cronJobs (scheduleRecurring accepts job s)) (job_id job)
           = Some (length (cronTasks s))"
  using assms
  by (auto simp add: scheduleRecurring_def Let_def update_conv' split: option.splits if_splits)

text \<open>
  C2, as the code has it. In every state the runner reaches from the initial one, the
  registry holds at most one timer entry and at most one cron entry per key. Arming does
  not disarm: every timeout that was pending is still pending after
  \<open>scheduleNewJob\<close>, and every cron task is left as it was. When arming creates a new
  timeout or cron task, the registry entry of the job's id is overwritten with the new
  handle; a timeout that was registered under the id and pending is still pending, a
  cron task that was registered under the id is unchanged, and neither is any longer the
  handle the registry holds for the id.
\<close>

theorem registry_single_entry_arming_overwrites:
  "length (filter (\<lambda>e. fst e = ident) (timers (run accepts evs initial))) \<le> 1
   \<and> length (filter (\<lambda>e. fst e = ident) (cronJobs (run accepts evs initial))) \<le> 1
   \<and> (isPending h s \<longrightarrow> isPending h (scheduleNewJob accepts job now s))
   \<and> (c < length (cronTasks s) \<longrightarrow>
        cronTasks (scheduleNewJob accepts job now s) ! c = cronTasks s ! c)
   \<and> (timeouts (scheduleOneOff job now s) \<noteq> timeouts s \<longrightarrow>
        map_of (timers (scheduleOneOff job now s)) (job_id job) = Some (length (timeouts s)))
   \<and> (cronTasks (scheduleRecurring accepts job s) \<noteq> cronTasks s \<longrightarrow>
        map_of (cronJobs (scheduleRecurring accepts job s)) (job_id job)
          = Some (length (cronTasks s)))
   \<and> (map_of (timers s) (job_id job) = Some t \<and> isPending t s
        \<and> timeouts (scheduleOneOff job now s) \<noteq> timeouts s \<longrightarrow>
        isPending t (scheduleOneOff job now s)
        \<and> map_of (timers (scheduleOneOff job now s)) (job_id job) \<noteq> Some t)
   \<and> (map_of (cronJobs s) (job_id job) = Some c \<and> c < length (cronTasks s)
        \<and> cronTasks (scheduleRecurring accepts job s) \<noteq> cronTasks s \<longrightarrow>
        cronTasks (scheduleRecurring accepts job s) ! c = cronTasks s ! c
        \<and> map_of (cronJobs (scheduleRecurring accepts job s)) (job_id job) \<noteq> Some c)"
proof -
  have "distinct (map fst (timers initial)) \<and> distinct (map fst (cronJobs initial))"
    by (simp add: initial_def)
  then have "distinct (map fst (timers (run accepts evs initial)))
             \<and> distinct (map fst (cronJobs (run accepts evs initial)))"
    by (rule run_distinct)
  then have one: "length (filter (\<lambda>e. fst e = ident) (timers (run accepts evs initial))) \<le> 1"
    "length (filter (\<lambda>e. fst e = ident) (cronJobs (run accepts evs initial))) \<le> 1"
    using one_entry_per_key[of "timers (run accepts evs initial)" ident]
      one_entry_per_key[of "cronJobs (run accepts evs initial)" ident]
    by blast+
  have keep: "isPending h (scheduleNewJob accepts job now s)" if "isPending h s"
    using that by (rule scheduleNewJob_keeps_pending)
  have tasks: "cronTasks (scheduleNewJob accepts job now s) ! c = cronTasks s ! c"
    if "c < length (cronTasks s)"
    using that by (rule scheduleNewJob_keeps_tasks)
  have newt: "map_of (timers (scheduleOneOff job now s)) (job_id job) = Some (length (timeouts s))"
    if "timeouts (scheduleOneOff job now s) \<noteq> timeouts s"
    using that by (rule scheduleOneOff_new_entry)
  have newc: "map_of (cronJobs (scheduleRecurring accepts job s)) (job_id job)
          = Some (length (cronTasks s))"
    if "cronTasks (scheduleRecurring accepts job s) \<noteq> cronTasks s"
    using that by (rule scheduleRecurring_new_entry)
  have oldt: "isPending t (scheduleOneOff job now s)
        \<and> map_of (timers (scheduleOneOff job now s)) (job_id job) \<noteq> Some t"
    if "map_of (timers s) (job_id job) = Some t \<and> isPending t s
        \<and> timeouts (scheduleOneOff job now s) \<noteq> timeouts s"
  proof -
    have "t < length (timeouts s)" using that by (simp add: isPending_def)
    then show ?thesis
      using that scheduleOneOff_keeps_pending[of t s job now] newt by simp
  qed
  have oldc: "cronTasks (scheduleRecurring accepts job s) ! c = cronTasks s ! c
        \<and> map_of (cronJobs (scheduleRecurring accepts job s)) (job_id job) \<noteq> Some c"
    if "map_of (cronJobs s) (job_id job) = Some c \<and> c < length (cronTasks s)
        \<and> cronTasks (scheduleRecurring accepts job s) \<noteq> cronTasks s"
  proof -
    have "cronTasks (scheduleRecurring accepts job s) ! c = cronTasks s ! c"
      using that scheduleRecurring_cronTasks[of accepts job s] by (auto simp: nth_append)
    then show ?thesis using that newc by simp
  qed
  show ?thesis
    using one keep tasks newt newc oldt oldc by blast
qed

lemmas run_defs = run_def scheduleNewJob_def scheduleOneOff_def scheduleRecurring_def
  setTimeout_def enqueue_def concurrency_def MAX_TIMEOUT_def isPending_def Let_def
  initial_def anyCron_def

theorem registry_single_entry_arming_overwrites_witness:
  "run anyCron [Arm webhook 400, Arm nightly 400] initial =
     initial\<lparr>timers := [(''j1'', 0)], cronJobs := [(''j3'', 0)],
             timeouts := [\<lparr>delay = 600, callback = RunOneOff ''j1'', tstate = Pending\<rparr>],
             cronTasks := [\<lparr>expression = ''0 0 * * *'', options = Some ''UTC'', target = ''j3'',
                             stopped = False\<rparr>]\<rparr>
   \<and> map_of (timers (run anyCron [Arm webhook 400, Arm nightly 400] initial)) ''j1'' = Some 0
   \<and> isPending 0 (run anyCron [Arm webhook 400, Arm nightly 400] initial)
   \<and> isPending 0 (scheduleNewJob anyCron webhook 500
                    (run anyCron [Arm webhook 400, Arm nightly 400] initial))
   \<and> isPending 0 (scheduleOneOff webhook 500
                    (run anyCron [Arm webhook 400, Arm nightly 400] initial))
   \<and> map_of (timers (scheduleOneOff webhook 500
                (run anyCron [Arm webhook 400, Arm nightly 400] initial))) ''j1'' = Some 1
   \<and> map_of (cronJobs (run anyCron [Arm webhook 400, Arm nightly 400] initial)) ''j3'' = Some 0
   \<and> stopped (cronTasks (scheduleNewJob anyCron nightly 500
                (run anyCron [Arm webhook 400, Arm nightly 400] initial)) ! 0) = False
   \<and> stopped (cronTasks (scheduleRecurring anyCron nightly
                (run anyCron [Arm webhook 400, Arm nightly 400] initial)) ! 0) = False
   \<and> map_of (cronJobs (scheduleRecurring anyCron nightly
                (run anyCron [Arm webhook 400, Arm nightly 400] initial))) ''j3'' = Some 1"
proof -
  have oneoff:
    "run anyCron [Arm webhook 400, Arm nightly 400] initial =
       initial\<lparr>timers := [(''j1'', 0)], cronJobs := [(''j3'', 0)],
               timeouts := [\<lparr>delay = 600, callback = RunOneOff ''j1'', tstate = Pending\<rparr>],
               cronTasks := [\<lparr>expression = ''0 0 * * *'', options = Some ''UTC'', target = ''j3'',
                               stopped = False\<rparr>]\<rparr>
     \<and> map_of (timers (run anyCron [Arm webhook 400, Arm nightly 400] initial)) ''j1'' = Some 0
     \<and> isPending 0 (run anyCron [Arm webhook 400, Arm nightly 400] initial)
     \<and> isPending 0 (scheduleNewJob anyCron webhook 500
                      (run anyCron [Arm webhook 400, Arm nightly 400] initial))
     \<and> isPending 0 (scheduleOneOff webhook 500
                      (run anyCron [Arm webhook 400, Arm nightly 400] initial))
     \<and> map_of (timers (scheduleOneOff webhook 500
                  (run anyCron [Arm webhook 400, Arm nightly 400] initial))) ''j1'' = Some 1"
    using registry_single_entry_arming_overwrites[where ident = "''j1''" and accepts = anyCron
        and evs = "[Arm webhook 400, Arm nightly 400]" and h = 0 and c = 0 and t = 0
        and job = webhook and now = 500
        and s = "run anyCron [Arm webhook 400, Arm nightly 400] initial"]
    by (simp add: run_defs webhook_def nightly_def)
  have recurring:
    "map_of (cronJobs (run anyCron [Arm webhook 400, Arm nightly 400] initial)) ''j3'' = Some 0
     \<and> stopped (cronTasks (scheduleNewJob anyCron nightly 500
                  (run anyCron [Arm webhook 400, Arm nightly 400] initial)) ! 0) = False
     \<and> stopped (cronTasks (scheduleRecurring anyCron nightly
                  (run anyCron [Arm webhook 400, Arm nightly 400] initial)) ! 0) = False
     \<and> map_of (cronJobs (scheduleRecurring anyCron nightly
                  (run anyCron [Arm webhook 400, Arm nightly 400] initial))) ''j3'' = Some 1"
    using registry_single_entry_arming_overwrites[where ident = "''j3''" and accepts = anyCron
        and evs = "[Arm webhook 400, Arm nightly 400]" and h = 0 and c = 0 and t = 0
        and job = nightly and now = 500
        and s = "run anyCron [Arm webhook 400, Arm nightly 400] initial"]
    by (simp add: run_defs webhook_def nightly_def)
  show ?thesis
    using oneoff recurring by blast
qed

text \<open>
  Arming is not preceded by disarming: after \<open>scheduleNewJob\<close> is called twice for the
  one-off job \<open>webhook\<close> and twice for the recurring job \<open>nightly\<close>, two timeouts
  of \<open>j1\<close> are pending and two cron tasks of \<open>j3\<close> are running, while the registry
  knows only the second of each.
\<close>

theorem rearming_leaves_prior_timer_live:
  "run anyCron [Arm webhook 400, Arm webhook 500, Arm nightly 500, Arm nightly 500] initial =
     initial\<lparr>timers := [(''j1'', 1)], cronJobs := [(''j3'', 1)],
             timeouts := [\<lparr>delay = 600, callback = RunOneOff ''j1'', tstate = Pending\<rparr>,
                          \<lparr>delay = 500, callback = RunOneOff ''j1'', tstate = Pending\<rparr>],
             cronTasks := [\<lparr>expression = ''0 0 * * *'', options = Some ''UTC'', target = ''j3'',
                             stopped = False\<rparr>,
                           \<lparr>expression = ''0 0 * * *'', options = Some ''UTC'', target = ''j3'',
                             stopped = False\<rparr>]\<rparr>
   \<and> isPending 0
        (run anyCron [Arm webhook 400, Arm webhook 500, Arm nightly 500, Arm nightly 500] initial)
   \<and> isPending 1
        (run anyCron [Arm webhook 400, Arm webhook 500, Arm nightly 500, Arm nightly 500] initial)"
  by (simp add: run_defs webhook_def nightly_def)

section \<open>The retry policy, one attempt at a time\<close>

text \<open>
  What a single failed attempt does, whatever came before it: while the incremented
  \<open>attempt_count\<close> is below \<open>max_attempts\<close> and the outcome is retryable, the attempt
  arms a timer with delay \<open>2 ^ attempt_count * 1000\<close> plus the jitter and leaves the
  stored status \<open>Running\<close>; otherwise it stores the job as \<open>Failed\<close>.
\<close>

lemma policy_ignores_progress [simp]:
  "retriesEnabled (job\<lparr>status := st, attempt_count := n\<rparr>) = retriesEnabled job"
  "maxAttempts (job\<lparr>status := st, attempt_count := n\<rparr>) = maxAttempts job"
  "isRetryable (job\<lparr>status := st, attempt_count := n\<rparr>) out = isRetryable job out"
  by (simp_all add: retriesEnabled_def maxAttempts_def retryable_def isRetryable_def
      split: option.split)

lemma execute_retry_eligible:
  assumes "findOneBy ident s = Some job" and "status job \<noteq> Running" and "\<not> success out"
    and "retriesEnabled job" and "int (attempt_count job + 1) < maxAttempts job"
    and "isRetryable job out"
  shows "execute ident out rnd s =
           (save (job\<lparr>status := Running, attempt_count := attempt_count job + 1,
                      last_error := Some (failureMessage out)\<rparr>) s)
             \<lparr>timeouts := timeouts s @
                 [\<lparr>delay = 2 ^ (attempt_count job + 1) * 1000 + \<lfloor>rnd * 1000\<rfloor>,
                   callback = RunRetry ident (attempt_count job + 1), tstate = Pending\<rparr>],
              timers := AList.update (retryKey ident (attempt_count job + 1))
                          (length (timeouts s)) (timers s)\<rparr>"
    and "map_option status (findOneBy ident (execute ident out rnd s)) = Some Running"
proof -
  let ?job1 = "job\<lparr>status := Running, attempt_count := attempt_count job + 1\<rparr>"
  have idj: "job_id job = ident" using assms(1) by (rule findOneBy_job_id)
  have "execute ident out rnd s = execute_end ?job1 out rnd (save ?job1 s)"
    using assms(1,2) by (rule execute_runs)
  also have "\<dots> =
           (save (?job1\<lparr>last_error := Some (failureMessage out)\<rparr>) s)
             \<lparr>timeouts := timeouts s @
                 [\<lparr>delay = 2 ^ attempt_count ?job1 * 1000 + \<lfloor>rnd * 1000\<rfloor>,
                   callback = RunRetry (job_id ?job1) (attempt_count ?job1), tstate = Pending\<rparr>],
              timers := AList.update (retryKey (job_id ?job1) (attempt_count ?job1))
                          (length (timeouts s)) (timers s)\<rparr>"
    using assms(3-6) by (intro execute_end_retry) simp_all
  finally show e: "execute ident out rnd s =
           (save (job\<lparr>status := Running, attempt_count := attempt_count job + 1,
                      last_error := Some (failureMessage out)\<rparr>) s)
             \<lparr>timeouts := timeouts s @
                 [\<lparr>delay = 2 ^ (attempt_count job + 1) * 1000 + \<lfloor>rnd * 1000\<rfloor>,
                   callback = RunRetry ident (attempt_count job + 1), tstate = Pending\<rparr>],
              timers := AList.update (retryKey ident (attempt_count job + 1))
                          (length (timeouts s)) (timers s)\<rparr>"
    using idj by simp
  show "map_option status (findOneBy ident (execute ident out rnd s)) = Some Running"
    unfolding e
    using idj findOneBy_save[of "job\<lparr>status := Running, attempt_count := attempt_count job + 1,
                      last_error := Some (failureMessage out)\<rparr>" s]
    by simp
qed

lemma execute_retries_exhausted:
  assumes "findOneBy ident s = Some job" and "status job \<noteq> Running" and "\<not> success out"
    and "\<not> int (attempt_count job + 1) < maxAttempts job \<or> \<not> isRetryable job out"
  shows "execute ident out rnd s =
           save (job\<lparr>attempt_count := attempt_count job + 1,
                     last_error := Some (failureMessage out), status := Failed\<rparr>) s"
proof -
  let ?job1 = "job\<lparr>status := Running, attempt_count := attempt_count job + 1\<rparr>"
  have "execute ident out rnd s = execute_end ?job1 out rnd (save ?job1 s)"
    using assms(1,2) by (rule execute_runs)
  also have "\<dots> = save (?job1\<lparr>last_error := Some (failureMessage out), status := Failed\<rparr>) s"
    using assms(3,4) by (intro execute_end_failed) auto
  finally show ?thesis by simp
qed

section \<open>Facts about startup recovery\<close>

lemma arming_keeps_repo [simp]:
  "repo (scheduleOneOff job now s) = repo s"
  "repo (scheduleRecurring accepts job s) = repo s"
  by (simp_all add: scheduleOneOff_def scheduleRecurring_def setTimeout_def Let_def
      split: option.split)

lemma startup_loop_repo:
  "repo (fold (\<lambda>job st. case job_type job of
                      Oneoff \<Rightarrow> scheduleOneOff job now st
                    | Recurring \<Rightarrow> scheduleRecurring accepts job st) jobs s) = repo s"
  by (induction jobs arbitrary: s) (simp_all split: JobType.split)

lemma startup_loop_extends:
  "\<exists>more. timeouts (fold (\<lambda>job st. case job_type job of
                      Oneoff \<Rightarrow> scheduleOneOff job now st
                    | Recurring \<Rightarrow> scheduleRecurring accepts job st) jobs s)
            = timeouts s @ more"
proof (induction jobs arbitrary: s)
  case Nil
  then show ?case by simp
next
  case (Cons j jobs)
  let ?s1 = "case job_type j of
               Oneoff \<Rightarrow> scheduleOneOff j now s
             | Recurring \<Rightarrow> scheduleRecurring accepts j s"
  have "\<exists>m1. timeouts ?s1 = timeouts s @ m1"
    using scheduleOneOff_timeouts[of j now s] by (cases "job_type j") auto
  then obtain m1 where m1: "timeouts ?s1 = timeouts s @ m1" ..
  obtain m2 where "timeouts (fold (\<lambda>job st. case job_type job of
                      Oneoff \<Rightarrow> scheduleOneOff job now st
                    | Recurring \<Rightarrow> scheduleRecurring accepts job st) jobs ?s1)
            = timeouts ?s1 @ m2"
    using Cons.IH[of ?s1] ..
  then show ?case using m1 by simp
qed

lemma startup_loop_arms:
  assumes "job \<in> set jobs" and "job_type job = Oneoff"
    and "scheduling job = Some sch" and "execute_at sch = Some runAt" and "runAt \<le> now"
    and "status job \<noteq> Scheduled"
  shows "\<exists>h. h < length (timeouts (fold (\<lambda>job st. case job_type job of
                      Oneoff \<Rightarrow> scheduleOneOff job now st
                    | Recurring \<Rightarrow> scheduleRecurring accepts job st) jobs s))
           \<and> timeouts (fold (\<lambda>job st. case job_type job of
                      Oneoff \<Rightarrow> scheduleOneOff job now st
                    | Recurring \<Rightarrow> scheduleRecurring accepts job st) jobs s) ! h
               = \<lparr>delay = 0, callback = RunOneOff (job_id job), tstate = Pending\<rparr>"
  using assms(1)
proof (induction jobs arbitrary: s)
  case Nil
  then show ?case by simp
next
  case (Cons j jobs)
  let ?arm = "\<lambda>job st. case job_type job of
                      Oneoff \<Rightarrow> scheduleOneOff job now st
                    | Recurring \<Rightarrow> scheduleRecurring accepts job st"
  show ?case
  proof (cases "j = job")
    case True
    have ns: "\<not> (runAt \<le> now \<and> status job = Scheduled)" using assms(6) by simp
    have nm: "\<not> max 0 (runAt - now) > MAX_TIMEOUT"
      using assms(5) by (simp add: MAX_TIMEOUT_def)
    have "timeouts (scheduleOneOff job now s) =
            timeouts s @ [\<lparr>delay = 0, callback = RunOneOff (job_id job), tstate = Pending\<rparr>]"
      using scheduleOneOff_wait[OF assms(3,4) ns nm, of s] assms(5) by simp
    moreover obtain more where
      "timeouts (fold ?arm jobs (scheduleOneOff job now s))
         = timeouts (scheduleOneOff job now s) @ more"
      using startup_loop_extends[of now accepts jobs "scheduleOneOff job now s"] ..
    ultimately have "timeouts (fold ?arm jobs (scheduleOneOff job now s)) =
        timeouts s @ [\<lparr>delay = 0, callback = RunOneOff (job_id job), tstate = Pending\<rparr>] @ more"
      by simp
    then have "length (timeouts s) < length (timeouts (fold ?arm jobs (scheduleOneOff job now s)))
      \<and> timeouts (fold ?arm jobs (scheduleOneOff job now s)) ! length (timeouts s)
          = \<lparr>delay = 0, callback = RunOneOff (job_id job), tstate = Pending\<rparr>"
      by (simp add: nth_append)
    then show ?thesis using True assms(2) by auto
  next
    case False
    then have "job \<in> set jobs" using Cons.prems by simp
    then show ?thesis using Cons.IH[of "?arm j s"] by simp
  qed
qed

lemma fire_pending_oneoff:
  assumes "h < length (timeouts s)"
    and "timeouts s ! h = \<lparr>delay = d, callback = RunOneOff ident, tstate = Pending\<rparr>"
  shows "fireTimeout h now' s =
           enqueue ident
             (s\<lparr>timeouts := (timeouts s)[h := \<lparr>delay = d, callback = RunOneOff ident,
                                                tstate = Fired\<rparr>],
                timers := AList.delete ident (timers s)\<rparr>)"
  using assms by (cases s) (simp add: fireTimeout_def isPending_def runCallback_def)

lemma execute_begin_guarded:
  assumes "findOneBy ident s = Some job" and "status job = Running"
  shows "execute_begin ident s = (s, None)" and "execute ident out rnd s = s"
  using assms by (simp_all add: execute_def execute_begin_def)

text \<open>
  C10, as the code has it. For a stored job whose \<open>execute_at\<close> is in the past and
  whose status is not \<open>Scheduled\<close>, arming registers a timer with delay 0 whose firing
  submits the job id to the queue (started at once below the concurrency limit, pending
  otherwise). \<open>onModuleInit\<close> does so for every stored one-off job, wherever it stands
  in the store. When the status is \<open>Completed\<close>, \<open>Failed\<close> or \<open>Paused\<close>, the
  execution then sets the status to \<open>Running\<close> and increments \<open>attempt_count\<close>: the
  job is executed again. When the status is \<open>Running\<close>, the execution returns at its
  guard and changes nothing.
\<close>

theorem finished_past_due_job_runs_again:
  assumes "scheduling job = Some sch" and "execute_at sch = Some runAt" and "runAt \<le> now"
    and "status job \<noteq> Scheduled"
    and "findOneBy (job_id job) s = Some job"
  shows
    "scheduleOneOff job now s =
       s\<lparr>timeouts := timeouts s @
             [\<lparr>delay = 0, callback = RunOneOff (job_id job), tstate = Pending\<rparr>],
         timers := AList.update (job_id job) (length (timeouts s)) (timers s)\<rparr>
     \<and> fireTimeout (length (timeouts s)) now' (scheduleOneOff job now s) =
         enqueue (job_id job)
           (s\<lparr>timeouts := timeouts s @
                 [\<lparr>delay = 0, callback = RunOneOff (job_id job), tstate = Fired\<rparr>],
              timers := AList.delete (job_id job) (timers s)\<rparr>)
     \<and> (running s < concurrency \<longrightarrow>
          started (fireTimeout (length (timeouts s)) now' (scheduleOneOff job now s))
            = started s @ [job_id job])
     \<and> (\<not> running s < concurrency \<longrightarrow>
          queue (fireTimeout (length (timeouts s)) now' (scheduleOneOff job now s))
            = queue s @ [job_id job])
     \<and> (status job = Completed \<or> status job = Failed \<or> status job = Paused \<longrightarrow>
          execute_begin (job_id job)
            (fireTimeout (length (timeouts s)) now' (scheduleOneOff job now s)) =
           (save (job\<lparr>status := Running, attempt_count := attempt_count job + 1\<rparr>)
              (fireTimeout (length (timeouts s)) now' (scheduleOneOff job now s)),
            Some (job\<lparr>status := Running, attempt_count := attempt_count job + 1\<rparr>))
          \<and> findOneBy (job_id job)
               (fst (execute_begin (job_id job)
                  (fireTimeout (length (timeouts s)) now' (scheduleOneOff job now s)))) =
             Some (job\<lparr>status := Running, attempt_count := attempt_count job + 1\<rparr>))
     \<and> (status job = Running \<longrightarrow>
          execute_begin (job_id job)
            (fireTimeout (length (timeouts s)) now' (scheduleOneOff job now s)) =
           (fireTimeout (length (timeouts s)) now' (scheduleOneOff job now s), None)
          \<and> execute (job_id job) out rnd
               (fireTimeout (length (timeouts s)) now' (scheduleOneOff job now s)) =
             fireTimeout (length (timeouts s)) now' (scheduleOneOff job now s))
     \<and> (repo s = [job] \<and> job_type job = Oneoff \<longrightarrow>
          onModuleInit accepts now s = scheduleOneOff job now s)
     \<and> (job_type job = Oneoff \<longrightarrow>
          repo (onModuleInit accepts now s) = repo s
          \<and> (\<exists>h. h < length (timeouts (onModuleInit accepts now s))
               \<and> timeouts (onModuleInit accepts now s) ! h
                   = \<lparr>delay = 0, callback = RunOneOff (job_id job), tstate = Pending\<rparr>
               \<and> fireTimeout h now' (onModuleInit accepts now s) =
                   enqueue (job_id job)
                     ((onModuleInit accepts now s)
                        \<lparr>timeouts := (timeouts (onModuleInit accepts now s))
                            [h := \<lparr>delay = 0, callback = RunOneOff (job_id job),
                                   tstate = Fired\<rparr>],
                         timers := AList.delete (job_id job)
                                     (timers (onModuleInit accepts now s))\<rparr>)
               \<and> (status job = Completed \<or> status job = Failed \<or> status job = Paused \<longrightarrow>
                    findOneBy (job_id job)
                      (fst (execute_begin (job_id job)
                              (fireTimeout h now' (onModuleInit accepts now s)))) =
                    Some (job\<lparr>status := Running, attempt_count := attempt_count job + 1\<rparr>))
               \<and> (status job = Running \<longrightarrow>
                    execute (job_id job) out rnd (fireTimeout h now' (onModuleInit accepts now s))
                      = fireTimeout h now' (onModuleInit accepts now s))))"
proof -
  let ?id = "job_id job"
  let ?armed = "s\<lparr>timeouts := timeouts s @
             [\<lparr>delay = 0, callback = RunOneOff ?id, tstate = Pending\<rparr>],
         timers := AList.update ?id (length (timeouts s)) (timers s)\<rparr>"
  let ?fired = "enqueue ?id
           (s\<lparr>timeouts := timeouts s @
                 [\<lparr>delay = 0, callback = RunOneOff ?id, tstate = Fired\<rparr>],
              timers := AList.delete ?id (timers s)\<rparr>)"
  let ?job1 = "job\<lparr>status := Running, attempt_count := attempt_count job + 1\<rparr>"
  let ?S = "onModuleInit accepts now s"
  have ns: "\<not> (runAt \<le> now \<and> status job = Scheduled)" using assms(4) by simp
  have d0: "max 0 (runAt - now) = 0" using assms(3) by simp
  have nm: "\<not> max 0 (runAt - now) > MAX_TIMEOUT" by (simp add: d0 MAX_TIMEOUT_def)
  have arm: "scheduleOneOff job now s = ?armed"
    using scheduleOneOff_wait[OF assms(1,2) ns nm, of s] by (simp add: d0)
  have fire: "fireTimeout (length (timeouts s)) now' (scheduleOneOff job now s) = ?fired"
    unfolding arm fire_new_timeout by (cases s) (simp add: runCallback_def delete_update_same)
  have st: "started ?fired = started s @ [?id]" if "running s < concurrency"
    using that by (simp add: enqueue_def)
  have qu: "queue ?fired = queue s @ [?id]" if "\<not> running s < concurrency"
    using that by (simp add: enqueue_def)
  have "findOneBy ?id ?fired = findOneBy ?id s"
    by (rule findOneBy_same_repo) simp
  then have found: "findOneBy ?id ?fired = Some job"
    using assms(5) by simp
  have beg: "execute_begin ?id ?fired = (save ?job1 ?fired, Some ?job1)"
    and after: "findOneBy ?id (fst (execute_begin ?id ?fired)) = Some ?job1"
    if "status job = Completed \<or> status job = Failed \<or> status job = Paused"
  proof -
    have nr: "status job \<noteq> Running" using that by auto
    show b: "execute_begin ?id ?fired = (save ?job1 ?fired, Some ?job1)"
      using execute_begin_runs[OF found nr] .
    show "findOneBy ?id (fst (execute_begin ?id ?fired)) = Some ?job1"
      unfolding b using findOneBy_save[of ?job1 ?fired] by simp
  qed
  have stuck: "execute_begin ?id ?fired = (?fired, None) \<and> execute ?id out rnd ?fired = ?fired"
    if "status job = Running"
    using execute_begin_guarded[OF found that] by simp
  have init: "?S = scheduleOneOff job now s" if "repo s = [job] \<and> job_type job = Oneoff"
    using that by (simp add: onModuleInit_def)
  have startup: "repo ?S = repo s
          \<and> (\<exists>h. h < length (timeouts ?S)
               \<and> timeouts ?S ! h = \<lparr>delay = 0, callback = RunOneOff ?id, tstate = Pending\<rparr>
               \<and> fireTimeout h now' ?S =
                   enqueue ?id
                     (?S\<lparr>timeouts := (timeouts ?S)
                            [h := \<lparr>delay = 0, callback = RunOneOff ?id, tstate = Fired\<rparr>],
                         timers := AList.delete ?id (timers ?S)\<rparr>)
               \<and> (status job = Completed \<or> status job = Failed \<or> status job = Paused \<longrightarrow>
                    findOneBy ?id (fst (execute_begin ?id (fireTimeout h now' ?S))) = Some ?job1)
               \<and> (status job = Running \<longrightarrow>
                    execute ?id out rnd (fireTimeout h now' ?S) = fireTimeout h now' ?S))"
    if one: "job_type job = Oneoff"
  proof -
    have rS: "repo ?S = repo s" by (simp add: onModuleInit_def startup_loop_repo)
    have mem: "job \<in> set (repo s)"
      using assms(5) by (auto simp: findOneBy_def find_Some_iff)
    obtain h where h: "h < length (timeouts ?S)"
      and th: "timeouts ?S ! h = \<lparr>delay = 0, callback = RunOneOff ?id, tstate = Pending\<rparr>"
      using startup_loop_arms[OF mem one assms(1,2,3,4), of accepts s]
      unfolding onModuleInit_def by blast
    let ?F = "enqueue ?id
                (?S\<lparr>timeouts := (timeouts ?S)
                       [h := \<lparr>delay = 0, callback = RunOneOff ?id, tstate = Fired\<rparr>],
                    timers := AList.delete ?id (timers ?S)\<rparr>)"
    have fS: "fireTimeout h now' ?S = ?F"
      using h th by (rule fire_pending_oneoff)
    have "findOneBy ?id ?F = findOneBy ?id s"
      by (rule findOneBy_same_repo) (simp add: rS)
    then have fF: "findOneBy ?id ?F = Some job" using assms(5) by simp
    have again: "findOneBy ?id (fst (execute_begin ?id ?F)) = Some ?job1"
      if "status job = Completed \<or> status job = Failed \<or> status job = Paused"
    proof -
      have nr: "status job \<noteq> Running" using that by auto
      show ?thesis
        using execute_begin_runs[OF fF nr] findOneBy_save[of ?job1 ?F] by simp
    qed
    have noop: "execute ?id out rnd ?F = ?F" if "status job = Running"
      using execute_begin_guarded(2)[OF fF that] .
    show ?thesis
      using rS h th fS again noop by (intro conjI exI[of _ h]) simp_all
  qed
  show ?thesis
    unfolding fire using arm st qu beg after stuck init startup by simp
qed

lemmas startup_defs = arm_defs webhook_def flaky_def nightly_def onModuleInit_def
  scheduleRecurring_def anyCron_def save_def findOneBy_def execute_begin_def execute_def

theorem finished_past_due_job_runs_again_witness:
  "findOneBy ''j1'' (save (webhook\<lparr>status := Completed\<rparr>) initial)
       = Some (webhook\<lparr>status := Completed\<rparr>)
   \<and> onModuleInit anyCron 5000 (save (webhook\<lparr>status := Completed\<rparr>) initial) =
       initial\<lparr>repo := [webhook\<lparr>status := Completed\<rparr>],
               timeouts := [\<lparr>delay = 0, callback = RunOneOff ''j1'', tstate = Pending\<rparr>],
               timers := [(''j1'', 0)]\<rparr>
   \<and> started (fireTimeout 0 5001
         (onModuleInit anyCron 5000 (save (webhook\<lparr>status := Completed\<rparr>) initial))) = [''j1'']
   \<and> findOneBy ''j1''
        (fst (execute_begin ''j1''
           (fireTimeout 0 5001
              (onModuleInit anyCron 5000 (save (webhook\<lparr>status := Completed\<rparr>) initial)))))
       = Some (webhook\<lparr>status := Running, attempt_count := 1\<rparr>)
   \<and> findOneBy ''j1'' (initial\<lparr>repo := [nightly, flaky, webhook\<lparr>status := Failed\<rparr>]\<rparr>)
       = Some (webhook\<lparr>status := Failed\<rparr>)
   \<and> timeouts (onModuleInit anyCron 5000
         (initial\<lparr>repo := [nightly, flaky, webhook\<lparr>status := Failed\<rparr>]\<rparr>))
       = [\<lparr>delay = 0, callback = RunOneOff ''j1'', tstate = Pending\<rparr>]
   \<and> started (fireTimeout 0 5001 (onModuleInit anyCron 5000
         (initial\<lparr>repo := [nightly, flaky, webhook\<lparr>status := Failed\<rparr>]\<rparr>)))
       = [''j2'', ''j1'']
   \<and> findOneBy ''j1''
        (fst (execute_begin ''j1'' (fireTimeout 0 5001 (onModuleInit anyCron 5000
           (initial\<lparr>repo := [nightly, flaky, webhook\<lparr>status := Failed\<rparr>]\<rparr>)))))
       = Some (webhook\<lparr>status := Running, attempt_count := 1\<rparr>)
   \<and> \<not> running (initial\<lparr>running := 5,
                          repo := [webhook\<lparr>status := Running, attempt_count := 1\<rparr>]\<rparr>)
         < concurrency
   \<and> queue (fireTimeout 0 5001
        (scheduleOneOff (webhook\<lparr>status := Running, attempt_count := 1\<rparr>) 5000
           (initial\<lparr>running := 5,
                    repo := [webhook\<lparr>status := Running, attempt_count := 1\<rparr>]\<rparr>))) = [''j1'']
   \<and> execute ''j1'' (Response 200) 0
        (fireTimeout 0 5001 (onModuleInit anyCron 5000
           (initial\<lparr>running := 5,
                    repo := [webhook\<lparr>status := Running, attempt_count := 1\<rparr>]\<rparr>)))
       = fireTimeout 0 5001 (onModuleInit anyCron 5000
           (initial\<lparr>running := 5,
                    repo := [webhook\<lparr>status := Running, attempt_count := 1\<rparr>]\<rparr>))"
proof -
  have single:
    "findOneBy ''j1'' (save (webhook\<lparr>status := Completed\<rparr>) initial)
       = Some (webhook\<lparr>status := Completed\<rparr>)
     \<and> onModuleInit anyCron 5000 (save (webhook\<lparr>status := Completed\<rparr>) initial) =
       initial\<lparr>repo := [webhook\<lparr>status := Completed\<rparr>],
               timeouts := [\<lparr>delay = 0, callback = RunOneOff ''j1'', tstate = Pending\<rparr>],
               timers := [(''j1'', 0)]\<rparr>
     \<and> started (fireTimeout 0 5001
         (onModuleInit anyCron 5000 (save (webhook\<lparr>status := Completed\<rparr>) initial))) = [''j1'']
     \<and> findOneBy ''j1''
        (fst (execute_begin ''j1''
           (fireTimeout 0 5001
              (onModuleInit anyCron 5000 (save (webhook\<lparr>status := Completed\<rparr>) initial)))))
       = Some (webhook\<lparr>status := Running, attempt_count := 1\<rparr>)"
    using finished_past_due_job_runs_again[of "webhook\<lparr>status := Completed\<rparr>"
        "\<lparr>execute_at = Some 1000, cron = None, timezone = Some ''UTC''\<rparr>" 1000 5000
        "save (webhook\<lparr>status := Completed\<rparr>) initial" 5001 "Response 200" 0 anyCron]
    by (simp add: startup_defs)
  have several:
    "findOneBy ''j1'' (initial\<lparr>repo := [nightly, flaky, webhook\<lparr>status := Failed\<rparr>]\<rparr>)
       = Some (webhook\<lparr>status := Failed\<rparr>)
     \<and> timeouts (onModuleInit anyCron 5000
         (initial\<lparr>repo := [nightly, flaky, webhook\<lparr>status := Failed\<rparr>]\<rparr>))
       = [\<lparr>delay = 0, callback = RunOneOff ''j1'', tstate = Pending\<rparr>]
     \<and> started (fireTimeout 0 5001 (onModuleInit anyCron 5000
         (initial\<lparr>repo := [nightly, flaky, webhook\<lparr>status := Failed\<rparr>]\<rparr>)))
       = [''j2'', ''j1'']
     \<and> findOneBy ''j1''
        (fst (execute_begin ''j1'' (fireTimeout 0 5001 (onModuleInit anyCron 5000
           (initial\<lparr>repo := [nightly, flaky, webhook\<lparr>status := Failed\<rparr>]\<rparr>)))))
       = Some (webhook\<lparr>status := Running, attempt_count := 1\<rparr>)"
    using finished_past_due_job_runs_again[of "webhook\<lparr>status := Failed\<rparr>"
        "\<lparr>execute_at = Some 1000, cron = None, timezone = Some ''UTC''\<rparr>" 1000 5000
        "initial\<lparr>repo := [nightly, flaky, webhook\<lparr>status := Failed\<rparr>]\<rparr>" 5001
        "Response 200" 0 anyCron]
    by (simp add: startup_defs)
  have stuck:
    "\<not> running (initial\<lparr>running := 5,
                          repo := [webhook\<lparr>status := Running, attempt_count := 1\<rparr>]\<rparr>)
         < concurrency
     \<and> queue (fireTimeout 0 5001
        (scheduleOneOff (webhook\<lparr>status := Running, attempt_count := 1\<rparr>) 5000
           (initial\<lparr>running := 5,
                    repo := [webhook\<lparr>status := Running, attempt_count := 1\<rparr>]\<rparr>))) = [''j1'']
     \<and> execute ''j1'' (Response 200) 0
        (fireTimeout 0 5001 (onModuleInit anyCron 5000
           (initial\<lparr>running := 5,
                    repo := [webhook\<lparr>status := Running, attempt_count := 1\<rparr>]\<rparr>)))
       = fireTimeout 0 5001 (onModuleInit anyCron 5000
           (initial\<lparr>running := 5,
                    repo := [webhook\<lparr>status := Running, attempt_count := 1\<rparr>]\<rparr>))"
    using finished_past_due_job_runs_again[of "webhook\<lparr>status := Running, attempt_count := 1\<rparr>"
        "\<lparr>execute_at = Some 1000, cron = None, timezone = Some ''UTC''\<rparr>" 1000 5000
        "initial\<lparr>running := 5, repo := [webhook\<lparr>status := Running, attempt_count := 1\<rparr>]\<rparr>"
        5001 "Response 200" 0 anyCron]
    by (simp add: startup_defs)
  show ?thesis
    using single several stuck by blast
qed

text \<open>
  For a status other than \<open>Scheduled\<close> in general this fails: a past-due job stored as
  \<open>Running\<close> gets the same timer, and its firing starts the task, but \<open>execute\<close>
  returns at its guard; the status was \<open>Running\<close> already and \<open>attempt_count\<close> stays 1.
\<close>

theorem running_past_due_job_is_not_executed:
  "timeouts (scheduleOneOff (webhook\<lparr>status := Running, attempt_count := 1\<rparr>) 5000
              (save (webhook\<lparr>status := Running, attempt_count := 1\<rparr>) initial))
     = [\<lparr>delay = 0, callback = RunOneOff ''j1'', tstate = Pending\<rparr>]
   \<and> started (fireTimeout 0 5001
        (scheduleOneOff (webhook\<lparr>status := Running, attempt_count := 1\<rparr>) 5000
           (save (webhook\<lparr>status := Running, attempt_count := 1\<rparr>) initial))) = [''j1'']
   \<and> execute_begin ''j1''
        (fireTimeout 0 5001
          (scheduleOneOff (webhook\<lparr>status := Running, attempt_count := 1\<rparr>) 5000
             (save (webhook\<lparr>status := Running, attempt_count := 1\<rparr>) initial)))
       = (fireTimeout 0 5001
            (scheduleOneOff (webhook\<lparr>status := Running, attempt_count := 1\<rparr>) 5000
               (save (webhook\<lparr>status := Running, attempt_count := 1\<rparr>) initial)), None)
   \<and> findOneBy ''j1''
        (execute ''j1'' (Response 200) 0
          (fireTimeout 0 5001
            (scheduleOneOff (webhook\<lparr>status := Running, attempt_count := 1\<rparr>) 5000
               (save (webhook\<lparr>status := Running, attempt_count := 1\<rparr>) initial))))
       = Some (webhook\<lparr>status := Running, attempt_count := 1\<rparr>)"
  by (simp add: arm_defs webhook_def save_def findOneBy_def execute_begin_def execute_def)

end
